theory Spec2Isabelle
  imports Main "HOL-Library.Word" "HOL-Library.Char_ord" "HOL-Library.List_Lexorder"
begin

section \<open>JotDB: the JSON codec and the document store\<close>

text \<open>
  A shallow embedding of \<^verbatim>\<open>json_unmarshal.go\<close>, of the encoder file
  (\<^verbatim>\<open>marshalJSON\<close>, \<^verbatim>\<open>writeJSON\<close>, \<^verbatim>\<open>escapeString\<close>) and of the indexed
  version of \<^verbatim>\<open>jotdb.go\<close>.

  A Go \<^verbatim>\<open>string\<close> and a \<^verbatim>\<open>[]byte\<close> are sequences of bytes: both are \<open>string\<close> here
  (an Isabelle \<open>char\<close> is one byte). Errors are values of the type \<open>error\<close>; a function
  that returns \<^verbatim>\<open>(T, error)\<close> returns \<open>error + T\<close>. A run-time panic is the error
  \<open>Panic_index_out_of_range\<close>, which no \<^verbatim>\<open>if err != nil\<close> of the source can catch.
\<close>

subsection \<open>Values and errors\<close>

type_synonym bytes = string

text \<open>
  The dynamic types an \<^verbatim>\<open>interface{}\<close> holds in this program: the six shapes that
  \<^verbatim>\<open>writeJSON\<close> has cases for (\<^verbatim>\<open>nil\<close>, \<^verbatim>\<open>string\<close>, \<^verbatim>\<open>float64\<close>, \<^verbatim>\<open>int\<close>, \<^verbatim>\<open>bool\<close>,
  \<^verbatim>\<open>map[string]interface{}\<close>, \<^verbatim>\<open>[]interface{}\<close>) and the \<^verbatim>\<open>int64\<close> that
  \<^verbatim>\<open>parseNumber\<close> returns. The type \<open>'f\<close> stands for \<^verbatim>\<open>float64\<close>. A Go map has unique
  keys and no order: \<open>VMap\<close> carries an association list, whose order is the order in
  which one \<^verbatim>\<open>range\<close> loop visits the map, and \<open>wf_value\<close> says that keys are unique.
\<close>

datatype 'f Value =
    VNil
  | VBool bool
  | VString string
  | VFloat64 'f
  | VInt int
  | VInt64 "64 word"
  | VArray "'f Value list"
  | VMap "(string \<times> 'f Value) list"

fun wf_value :: "'f Value \<Rightarrow> bool" where
  "wf_value (VArray xs) = (\<forall>x \<in> set xs. wf_value x)"
| "wf_value (VMap kvs) = (distinct (map fst kvs) \<and> (\<forall>kv \<in> set kvs. wf_value (snd kv)))"
| "wf_value _ = True"

text \<open>The \<^verbatim>\<open>%T\<close> of a value, as the error messages print it.\<close>

fun type_name :: "'f Value \<Rightarrow> string" where
  "type_name VNil = ''<nil>''"
| "type_name (VBool _) = ''bool''"
| "type_name (VString _) = ''string''"
| "type_name (VFloat64 _) = ''float64''"
| "type_name (VInt _) = ''int''"
| "type_name (VInt64 _) = ''int64''"
| "type_name (VArray _) = ''[]interface {}''"
| "type_name (VMap _) = ''map[string]interface {}''"

text \<open>\<^verbatim>\<open>strconv.NumError\<close>: the function, the input and \<^verbatim>\<open>ErrSyntax\<close> or \<^verbatim>\<open>ErrRange\<close>.\<close>

datatype NumErr = ErrSyntax | ErrRange

datatype NumError = NumError string string NumErr

datatype error =
    Empty_input
  | Invalid_JSON nat
  | Expected_string_key nat
  | Expected_colon nat
  | Expected_comma_or_brace nat
  | Unclosed_object nat
  | Expected_comma_or_bracket nat
  | Unclosed_array nat
  | Incomplete_escape
  | Incomplete_unicode_escape
  | Unicode_escape NumError
  | Invalid_escape nat
  | Unclosed_string
  | Invalid_number nat NumError
  | Invalid_integer nat NumError
  | Expected_map string
  | Expected_array string
  | Unsupported_type string
  | Document_must_be_map
  | Length_mismatch
  | Document_not_found
  | Field_not_indexed
  | Key_not_found
  | Backend_error
  | Json_library_error
  | Panic_index_out_of_range nat nat
  | Fuel_exhausted

subsection \<open>The library functions the code calls\<close>

text \<open>
  Floating point and \<^verbatim>\<open>encoding/json\<close> are outside the repository. They are the fields
  of a record that every function below takes as its first argument:
  \<^verbatim>\<open>strconv.FormatFloat(x, 'f', -1, 64)\<close>, \<^verbatim>\<open>strconv.ParseFloat(s, 64)\<close>,
  \<^verbatim>\<open>fmt.Sprintf("%v", x)\<close> at a \<^verbatim>\<open>float64\<close>, and \<^verbatim>\<open>json.Marshal\<close> and
  \<^verbatim>\<open>json.Unmarshal\<close> at a \<^verbatim>\<open>[]string\<close>.
\<close>

record 'f extern =
  FormatFloat :: "'f \<Rightarrow> string"
  ParseFloat :: "string \<Rightarrow> NumErr + 'f"
  SprintFloat :: "'f \<Rightarrow> string"
  json_Marshal :: "string list \<Rightarrow> bytes"
  json_Unmarshal :: "bytes \<Rightarrow> error + string list"

subsection \<open>strconv on integers\<close>

definition digit_char :: "nat \<Rightarrow> char" where
  "digit_char d = char_of (of_char (CHR ''0'') + d)"

function decimal :: "nat \<Rightarrow> string" where
  "decimal n = (if n < 10 then [digit_char n] else decimal (n div 10) @ [digit_char (n mod 10)])"
  by pat_completeness auto
termination
  by (relation "measure id") auto

declare decimal.simps [simp del]

text \<open>\<^verbatim>\<open>strconv.Itoa\<close>, and \<^verbatim>\<open>strconv.FormatInt(i, 10)\<close> at an \<^verbatim>\<open>int64\<close>.\<close>

definition Itoa :: "int \<Rightarrow> string" where
  "Itoa i = (if i < 0 then CHR ''-'' # decimal (nat (- i)) else decimal (nat i))"

definition is_digit :: "char \<Rightarrow> bool" where
  "is_digit c \<longleftrightarrow> CHR ''0'' \<le> c \<and> c \<le> CHR ''9''"

definition digit_val :: "char \<Rightarrow> nat" where
  "digit_val c = of_char c - of_char (CHR ''0'')"

text \<open>
  The loop of \<^verbatim>\<open>strconv.ParseUint(s, 10, 64)\<close>: a byte that is no digit is a syntax
  error; \<^verbatim>\<open>n >= cutoff\<close> and \<^verbatim>\<open>n1 < n || n1 > maxVal\<close> are range errors, found before
  the bytes behind them are looked at. \<open>n * 10 + d\<close> wraps in the source exactly when it
  exceeds \<open>2 ^ 64 - 1\<close> here.
\<close>

fun ParseUint10_loop :: "nat \<Rightarrow> string \<Rightarrow> NumErr + nat" where
  "ParseUint10_loop n [] = Inr n"
| "ParseUint10_loop n (c # cs) =
     (if \<not> is_digit c then Inl ErrSyntax
      else if n \<ge> (2 ^ 64 - 1) div 10 + 1 then Inl ErrRange
      else let n1 = n * 10 + digit_val c
           in if n1 > 2 ^ 64 - 1 then Inl ErrRange else ParseUint10_loop n1 cs)"

definition ParseUint10 :: "string \<Rightarrow> NumErr + nat" where
  "ParseUint10 s = (if s = [] then Inl ErrSyntax else ParseUint10_loop 0 s)"

text \<open>
  \<^verbatim>\<open>strconv.ParseInt(s, 10, 64)\<close>: an optional sign, then \<^verbatim>\<open>ParseUint\<close>; a magnitude of
  \<open>2 ^ 63\<close> or more (more than \<open>2 ^ 63\<close> behind a minus sign) is a range error.
\<close>

definition ParseInt :: "string \<Rightarrow> NumError + 64 word" where
  "ParseInt s0 =
     (if s0 = [] then Inl (NumError ''ParseInt'' s0 ErrSyntax)
      else let neg = (hd s0 = CHR ''-'');
               s = (if hd s0 = CHR ''+'' \<or> hd s0 = CHR ''-'' then tl s0 else s0)
           in case ParseUint10 s of
                Inl e \<Rightarrow> Inl (NumError ''ParseInt'' s0 e)
              | Inr un \<Rightarrow>
                  if \<not> neg \<and> un \<ge> 2 ^ 63 then Inl (NumError ''ParseInt'' s0 ErrRange)
                  else if neg \<and> un > 2 ^ 63 then Inl (NumError ''ParseInt'' s0 ErrRange)
                  else Inr (if neg then - word_of_nat un else word_of_nat un))"

text \<open>\<^verbatim>\<open>strconv.ParseUint(s, 16, 32)\<close>, which \<^verbatim>\<open>parseString\<close> calls on four bytes.\<close>

definition hex_val :: "char \<Rightarrow> nat option" where
  "hex_val c =
     (if CHR ''0'' \<le> c \<and> c \<le> CHR ''9'' then Some (of_char c - of_char (CHR ''0''))
      else if CHR ''a'' \<le> c \<and> c \<le> CHR ''f'' then Some (of_char c - of_char (CHR ''a'') + 10)
      else if CHR ''A'' \<le> c \<and> c \<le> CHR ''F'' then Some (of_char c - of_char (CHR ''A'') + 10)
      else None)"

fun ParseUint16_loop :: "nat \<Rightarrow> string \<Rightarrow> NumErr + nat" where
  "ParseUint16_loop n [] = Inr n"
| "ParseUint16_loop n (c # cs) =
     (case hex_val c of
        None \<Rightarrow> Inl ErrSyntax
      | Some d \<Rightarrow>
          if n \<ge> (2 ^ 64 - 1) div 16 + 1 then Inl ErrRange
          else let n1 = n * 16 + d
               in if n1 > 2 ^ 32 - 1 then Inl ErrRange else ParseUint16_loop n1 cs)"

definition ParseUint16 :: "string \<Rightarrow> NumError + nat" where
  "ParseUint16 s =
     (if s = [] then Inl (NumError ''ParseUint'' s ErrSyntax)
      else case ParseUint16_loop 0 s of
             Inl e \<Rightarrow> Inl (NumError ''ParseUint'' s e)
           | Inr n \<Rightarrow> Inr n)"

subsection \<open>UTF-8, as \<^verbatim>\<open>unicode/utf8\<close> reads and writes it\<close>

definition RuneError :: nat where
  "RuneError = 0xFFFD"

definition MaxRune :: nat where
  "MaxRune = 0x10FFFF"

text \<open>
  The length of the sequence a first byte announces (0 for a byte that starts none) and
  the range its second byte must lie in: the tables \<^verbatim>\<open>first\<close> and
  \<^verbatim>\<open>acceptRanges\<close> of the library.
\<close>

definition seq_len :: "nat \<Rightarrow> nat" where
  "seq_len b0 =
     (if b0 < 0x80 then 1
      else if 0xC2 \<le> b0 \<and> b0 \<le> 0xDF then 2
      else if 0xE0 \<le> b0 \<and> b0 \<le> 0xEF then 3
      else if 0xF0 \<le> b0 \<and> b0 \<le> 0xF4 then 4
      else 0)"

definition accept_lo :: "nat \<Rightarrow> nat" where
  "accept_lo b0 = (if b0 = 0xE0 then 0xA0 else if b0 = 0xF0 then 0x90 else 0x80)"

definition accept_hi :: "nat \<Rightarrow> nat" where
  "accept_hi b0 = (if b0 = 0xED then 0x9F else if b0 = 0xF4 then 0x8F else 0xBF)"

definition is_cont :: "nat \<Rightarrow> bool" where
  "is_cont b \<longleftrightarrow> 0x80 \<le> b \<and> b \<le> 0xBF"

text \<open>
  \<^verbatim>\<open>utf8.DecodeRuneInString\<close>: the rune and its width in bytes. A byte that starts no
  well-formed sequence yields \<open>(RuneError, 1)\<close>.
\<close>

definition DecodeRuneInString :: "string \<Rightarrow> nat \<times> nat" where
  "DecodeRuneInString s =
     (case map of_char s of
        [] \<Rightarrow> (RuneError, 0)
      | b0 # bs \<Rightarrow>
          if seq_len b0 = 1 then (b0, 1)
          else if seq_len b0 = 0 \<or> length bs < seq_len b0 - 1 then (RuneError, 1)
          else if \<not> (accept_lo b0 \<le> bs ! 0 \<and> bs ! 0 \<le> accept_hi b0) then (RuneError, 1)
          else if seq_len b0 = 2 then ((b0 mod 32) * 64 + bs ! 0 mod 64, 2)
          else if \<not> is_cont (bs ! 1) then (RuneError, 1)
          else if seq_len b0 = 3
            then ((b0 mod 16) * 4096 + (bs ! 0 mod 64) * 64 + bs ! 1 mod 64, 3)
          else if \<not> is_cont (bs ! 2) then (RuneError, 1)
          else ((b0 mod 8) * 262144 + (bs ! 0 mod 64) * 4096 + (bs ! 1 mod 64) * 64
                  + bs ! 2 mod 64, 4))"

text \<open>
  \<^verbatim>\<open>utf8.AppendRune\<close>, which \<^verbatim>\<open>WriteRune\<close> calls: a surrogate or a rune beyond
  \<^verbatim>\<open>MaxRune\<close> is written as \<^verbatim>\<open>RuneError\<close>.
\<close>

definition EncodeRune :: "nat \<Rightarrow> string" where
  "EncodeRune r =
     (if r < 0x80 then [char_of r]
      else if r < 0x800 then [char_of (0xC0 + r div 64), char_of (0x80 + r mod 64)]
      else if r > MaxRune \<or> (0xD800 \<le> r \<and> r \<le> 0xDFFF)
        then [char_of (0xEF :: nat), char_of (0xBF :: nat), char_of (0xBD :: nat)]
      else if r < 0x10000
        then [char_of (0xE0 + r div 4096), char_of (0x80 + r div 64 mod 64),
              char_of (0x80 + r mod 64)]
      else [char_of (0xF0 + r div 262144), char_of (0x80 + r div 4096 mod 64),
            char_of (0x80 + r div 64 mod 64), char_of (0x80 + r mod 64)])"

text \<open>
  \<^verbatim>\<open>for _, r := range s\<close>: the runes of a string, each with the bytes it was read from.
  The width is at least 1 on a non-empty string, so the loop drops \<open>width - 1\<close> bytes
  behind the first.
\<close>

fun runes :: "string \<Rightarrow> nat list" where
  "runes [] = []"
| "runes (c # cs) =
     fst (DecodeRuneInString (c # cs)) # runes (drop (snd (DecodeRuneInString (c # cs)) - 1) cs)"

subsection \<open>The encoder\<close>

definition hex_char :: "nat \<Rightarrow> char" where
  "hex_char d = (if d < 10 then char_of (of_char (CHR ''0'') + d)
                 else char_of (of_char (CHR ''a'') + (d - 10)))"

function hex :: "nat \<Rightarrow> string" where
  "hex n = (if n < 16 then [hex_char n] else hex (n div 16) @ [hex_char (n mod 16)])"
  by pat_completeness auto
termination
  by (relation "measure id") auto

declare hex.simps [simp del]

text \<open>\<^verbatim>\<open>fmt.Fprintf(buf, `\u%04x`, r)\<close>: at least four digits, more when \<open>r\<close> needs them.\<close>

definition u_escape :: "nat \<Rightarrow> string" where
  "u_escape r = [CHR 0x5C, CHR ''u''] @ replicate (4 - length (hex r)) (CHR ''0'') @ hex r"

text \<open>The body of the loop of \<^verbatim>\<open>escapeString\<close>: what one rune appends to the buffer.\<close>

definition escapeRune :: "nat \<Rightarrow> string" where
  "escapeRune r =
     (if r = of_char (CHR 0x22) then [CHR 0x5C, CHR 0x22]
      else if r = of_char (CHR 0x5C) then [CHR 0x5C, CHR 0x5C]
      else if r = 8 then [CHR 0x5C, CHR ''b'']
      else if r = 12 then [CHR 0x5C, CHR ''f'']
      else if r = 10 then [CHR 0x5C, CHR ''n'']
      else if r = 13 then [CHR 0x5C, CHR ''r'']
      else if r = 9 then [CHR 0x5C, CHR ''t'']
      else if r < 32 \<or> r \<ge> MaxRune \<or> r = 0x2028 \<or> r = 0x2029 then u_escape r
      else EncodeRune r)"

definition escapeString :: "string \<Rightarrow> string" where
  "escapeString s = [CHR 0x22] @ concat (map escapeRune (runes s)) @ [CHR 0x22]"

text \<open>
  \<^verbatim>\<open>writeJSON\<close> appends to a buffer that nothing else reads: the model returns the
  bytes appended. The \<^verbatim>\<open>default\<close> case of the type switch is reached by \<^verbatim>\<open>int64\<close>.
  \<open>writeJSON_items\<close> is the loop over a slice (\<open>i\<close> is its index), \<open>writeJSON_fields\<close>
  the loop over a map (\<open>first\<close> is its flag).
\<close>

fun writeJSON :: "'f extern \<Rightarrow> 'f Value \<Rightarrow> error + string"
  and writeJSON_items :: "'f extern \<Rightarrow> nat \<Rightarrow> 'f Value list \<Rightarrow> error + string"
  and writeJSON_fields :: "'f extern \<Rightarrow> bool \<Rightarrow> (string \<times> 'f Value) list \<Rightarrow> error + string"
where
  "writeJSON E VNil = Inr ''null''"
| "writeJSON E (VString s) = Inr (escapeString s)"
| "writeJSON E (VFloat64 x) = Inr (FormatFloat E x)"
| "writeJSON E (VInt i) = Inr (Itoa i)"
| "writeJSON E (VBool b) = Inr (if b then ''true'' else ''false'')"
| "writeJSON E (VMap kvs) =
     (case writeJSON_fields E True kvs of
        Inl e \<Rightarrow> Inl e
      | Inr s \<Rightarrow> Inr (''{'' @ s @ ''}''))"
| "writeJSON E (VArray xs) =
     (case writeJSON_items E 0 xs of
        Inl e \<Rightarrow> Inl e
      | Inr s \<Rightarrow> Inr (''['' @ s @ '']''))"
| "writeJSON E (VInt64 i) = Inl (Unsupported_type (type_name (VInt64 i :: 'f Value)))"
| "writeJSON_items E i [] = Inr []"
| "writeJSON_items E i (x # xs) =
     (case writeJSON E x of
        Inl e \<Rightarrow> Inl e
      | Inr s \<Rightarrow>
          (case writeJSON_items E (Suc i) xs of
             Inl e \<Rightarrow> Inl e
           | Inr t \<Rightarrow> Inr ((if i > 0 then '','' else []) @ s @ t)))"
| "writeJSON_fields E first [] = Inr []"
| "writeJSON_fields E first ((k, v) # kvs) =
     (case writeJSON E v of
        Inl e \<Rightarrow> Inl e
      | Inr s \<Rightarrow>
          (case writeJSON_fields E False kvs of
             Inl e \<Rightarrow> Inl e
           | Inr t \<Rightarrow> Inr ((if \<not> first then '','' else []) @ escapeString k @ '':'' @ s @ t)))"

definition marshalJSON :: "'f extern \<Rightarrow> 'f Value \<Rightarrow> error + bytes" where
  "marshalJSON E v = writeJSON E v"

subsection \<open>The decoder\<close>

text \<open>
  The parser is the input and a position; \<^verbatim>\<open>p.total\<close> is \<open>length d\<close> from \<^verbatim>\<open>init\<close> on.
  Every method takes the position and returns the new one with its result. The source
  indexes \<^verbatim>\<open>p.data[p.pos]\<close>: where it does so without a bounds check the model returns
  the panic.
\<close>

definition slice :: "bytes \<Rightarrow> nat \<Rightarrow> nat \<Rightarrow> bytes" where
  "slice d a b = take (b - a) (drop a d)"

definition is_space :: "char \<Rightarrow> bool" where
  "is_space c \<longleftrightarrow> c = CHR '' '' \<or> c = CHR 0x0A \<or> c = CHR 0x0D \<or> c = CHR 0x09"

function skipWhitespace :: "bytes \<Rightarrow> nat \<Rightarrow> nat" where
  "skipWhitespace d pos =
     (if pos < length d \<and> is_space (d ! pos) then skipWhitespace d (pos + 1) else pos)"
  by pat_completeness auto
termination
  by (relation "measure (\<lambda>(d, pos). length d - pos)") auto

declare skipWhitespace.simps [simp del]

text \<open>
  The loop of \<^verbatim>\<open>parseString\<close>, entered behind the opening quote; \<open>sb\<close> is the
  \<^verbatim>\<open>strings.Builder\<close>.
\<close>

function parseString_loop :: "bytes \<Rightarrow> nat \<Rightarrow> string \<Rightarrow> error + (string \<times> nat)" where
  "parseString_loop d pos sb =
     (if pos < length d \<and> d ! pos \<noteq> CHR 0x22 then
        (if d ! pos = CHR 0x5C then
           (if pos + 1 \<ge> length d then Inl Incomplete_escape
            else if d ! (pos + 1) = CHR 0x22 \<or> d ! (pos + 1) = CHR 0x5C \<or> d ! (pos + 1) = CHR ''/''
              then parseString_loop d (pos + 2) (sb @ [d ! (pos + 1)])
            else if d ! (pos + 1) = CHR ''b'' then parseString_loop d (pos + 2) (sb @ [CHR 0x08])
            else if d ! (pos + 1) = CHR ''f'' then parseString_loop d (pos + 2) (sb @ [CHR 0x0C])
            else if d ! (pos + 1) = CHR ''n'' then parseString_loop d (pos + 2) (sb @ [CHR 0x0A])
            else if d ! (pos + 1) = CHR ''r'' then parseString_loop d (pos + 2) (sb @ [CHR 0x0D])
            else if d ! (pos + 1) = CHR ''t'' then parseString_loop d (pos + 2) (sb @ [CHR 0x09])
            else if d ! (pos + 1) = CHR ''u'' then
              (if pos + 1 + 4 \<ge> length d then Inl Incomplete_unicode_escape
               else case ParseUint16 (slice d (pos + 2) (pos + 6)) of
                      Inl e \<Rightarrow> Inl (Unicode_escape e)
                    | Inr code \<Rightarrow> parseString_loop d (pos + 6) (sb @ EncodeRune code))
            else Inl (Invalid_escape (pos + 1)))
         else parseString_loop d (pos + 1) (sb @ [d ! pos]))
      else if pos \<ge> length d then Inl Unclosed_string
      else Inr (sb, pos + 1))"
  by pat_completeness auto
termination
  by (relation "measure (\<lambda>(d, pos, sb). length d - pos)") auto

declare parseString_loop.simps [simp del]

definition parseString :: "bytes \<Rightarrow> nat \<Rightarrow> error + (string \<times> nat)" where
  "parseString d pos = parseString_loop d (pos + 1) []"

definition is_num_char :: "char \<Rightarrow> bool" where
  "is_num_char c \<longleftrightarrow>
     c = CHR ''-'' \<or> c = CHR ''.'' \<or> c = CHR ''e'' \<or> c = CHR ''E'' \<or> c = CHR ''+'' \<or> is_digit c"

function scanNumber :: "bytes \<Rightarrow> nat \<Rightarrow> nat" where
  "scanNumber d pos =
     (if pos < length d \<and> is_num_char (d ! pos) then scanNumber d (pos + 1) else pos)"
  by pat_completeness auto
termination
  by (relation "measure (\<lambda>(d, pos). length d - pos)") auto

declare scanNumber.simps [simp del]

definition has_marker :: "string \<Rightarrow> bool" where
  "has_marker numStr \<longleftrightarrow>
     CHR ''.'' \<in> set numStr \<or> CHR ''e'' \<in> set numStr \<or> CHR ''E'' \<in> set numStr"

definition parseNumber :: "'f extern \<Rightarrow> bytes \<Rightarrow> nat \<Rightarrow> error + ('f Value \<times> nat)" where
  "parseNumber E d start =
     (let pos = scanNumber d start; numStr = slice d start pos
      in if has_marker numStr then
           (case ParseFloat E numStr of
              Inl e \<Rightarrow> Inl (Invalid_number start (NumError ''ParseFloat'' numStr e))
            | Inr f \<Rightarrow> Inr (VFloat64 f, pos))
         else
           (case ParseInt numStr of
              Inl e \<Rightarrow> Inl (Invalid_integer start e)
            | Inr i \<Rightarrow> Inr (VInt64 i, pos)))"

text \<open>\<^verbatim>\<open>obj[key] = value\<close>: a key that is present keeps its place and takes the new value.\<close>

fun map_set :: "('k \<times> 'v) list \<Rightarrow> 'k \<Rightarrow> 'v \<Rightarrow> ('k \<times> 'v) list" where
  "map_set [] k v = [(k, v)]"
| "map_set ((k', v') # kvs) k v =
     (if k' = k then (k, v) # kvs else (k', v') # map_set kvs k v)"

text \<open>
  The cases of the switch of \<^verbatim>\<open>parse\<close> that call neither \<^verbatim>\<open>parseObject\<close> nor
  \<^verbatim>\<open>parseArray\<close>, in the order of the source; \<open>pos < length d\<close> has been checked.
\<close>

definition parse_leaf :: "'f extern \<Rightarrow> bytes \<Rightarrow> nat \<Rightarrow> error + ('f Value \<times> nat)" where
  "parse_leaf E d pos =
     (if d ! pos = CHR 0x22 then
        (case parseString d pos of Inl e \<Rightarrow> Inl e | Inr (s, p) \<Rightarrow> Inr (VString s, p))
      else if d ! pos = CHR ''t'' then
        (if pos + 4 \<le> length d \<and> slice d pos (pos + 4) = ''true''
         then Inr (VBool True, pos + 4) else Inl (Invalid_JSON pos))
      else if d ! pos = CHR ''f'' then
        (if pos + 5 \<le> length d \<and> slice d pos (pos + 5) = ''false''
         then Inr (VBool False, pos + 5) else Inl (Invalid_JSON pos))
      else if d ! pos = CHR ''n'' then
        (if pos + 4 \<le> length d \<and> slice d pos (pos + 4) = ''null''
         then Inr (VNil, pos + 4) else Inl (Invalid_JSON pos))
      else if d ! pos = CHR ''-'' \<or> is_digit (d ! pos) then parseNumber E d pos
      else Inl (Invalid_JSON pos))"

text \<open>
  The body of the loop of \<^verbatim>\<open>parseObject\<close> up to the call of \<^verbatim>\<open>parse\<close>: the
  whitespace, the key, the colon, the whitespace. \<^verbatim>\<open>p.data[p.pos]\<close> is read behind
  \<^verbatim>\<open>skipWhitespace\<close> with no check against \<^verbatim>\<open>p.total\<close>.
\<close>

definition parseObject_key :: "bytes \<Rightarrow> nat \<Rightarrow> error + (string \<times> nat)" where
  "parseObject_key d pos =
     (let pos1 = skipWhitespace d pos
      in if pos1 \<ge> length d then Inl (Panic_index_out_of_range pos1 (length d))
         else if d ! pos1 \<noteq> CHR 0x22 then Inl (Expected_string_key pos1)
         else (case parseString d pos1 of
                 Inl e \<Rightarrow> Inl e
               | Inr (key, pos2) \<Rightarrow>
                   (let pos3 = skipWhitespace d pos2
                    in if pos3 \<ge> length d \<or> d ! pos3 \<noteq> CHR '':'' then Inl (Expected_colon pos3)
                       else Inr (key, skipWhitespace d (pos3 + 1)))))"

text \<open>
  What both loops do behind a value: skip whitespace, then return at the closing byte,
  fail at anything but a comma, or step over the comma. The result is whether the
  container is closed, and the position behind the byte.
\<close>

definition close_or_comma :: "char \<Rightarrow> (nat \<Rightarrow> error) \<Rightarrow> bytes \<Rightarrow> nat \<Rightarrow> error + (bool \<times> nat)" where
  "close_or_comma close err d pos =
     (let p = skipWhitespace d pos
      in if p < length d \<and> d ! p = close then Inr (True, p + 1)
         else if p \<ge> length d \<or> d ! p \<noteq> CHR '','' then Inl (err p)
         else Inr (False, p + 1))"

text \<open>
  \<^verbatim>\<open>parse\<close>, \<^verbatim>\<open>parseObject\<close> and \<^verbatim>\<open>parseArray\<close> call each other; their \<^verbatim>\<open>for\<close> loops
  are \<open>parseObject_loop\<close> and \<open>parseArray_loop\<close>. The first argument behind \<open>E\<close> is
  fuel: each call of \<open>parse\<close> and each turn of a loop uses one unit, and a run that has
  none left returns \<open>Fuel_exhausted\<close>. \<open>unmarshalJSON\<close> starts with more than any input
  of that length uses (\<open>unmarshalJSON_fuel\<close> below).
\<close>

function (sequential) parse :: "'f extern \<Rightarrow> nat \<Rightarrow> bytes \<Rightarrow> nat \<Rightarrow> error + ('f Value \<times> nat)"
  and parseObject :: "'f extern \<Rightarrow> nat \<Rightarrow> bytes \<Rightarrow> nat \<Rightarrow> error + ((string \<times> 'f Value) list \<times> nat)"
  and parseObject_loop ::
    "'f extern \<Rightarrow> nat \<Rightarrow> bytes \<Rightarrow> nat \<Rightarrow> (string \<times> 'f Value) list
       \<Rightarrow> error + ((string \<times> 'f Value) list \<times> nat)"
  and parseArray :: "'f extern \<Rightarrow> nat \<Rightarrow> bytes \<Rightarrow> nat \<Rightarrow> error + ('f Value list \<times> nat)"
  and parseArray_loop ::
    "'f extern \<Rightarrow> nat \<Rightarrow> bytes \<Rightarrow> nat \<Rightarrow> 'f Value list \<Rightarrow> error + ('f Value list \<times> nat)"
where
  "parse E 0 d pos0 = Inl Fuel_exhausted"
| "parse E (Suc n) d pos0 =
     (let pos = skipWhitespace d pos0
      in if pos \<ge> length d then Inl Empty_input
         else if d ! pos = CHR ''{'' then
           (case parseObject E n d pos of Inl e \<Rightarrow> Inl e | Inr (obj, p) \<Rightarrow> Inr (VMap obj, p))
         else if d ! pos = CHR ''['' then
           (case parseArray E n d pos of Inl e \<Rightarrow> Inl e | Inr (arr, p) \<Rightarrow> Inr (VArray arr, p))
         else parse_leaf E d pos)"
| "parseObject E n d pos =
     (let pos1 = skipWhitespace d (pos + 1)
      in if pos1 < length d \<and> d ! pos1 = CHR ''}'' then Inr ([], pos1 + 1)
         else parseObject_loop E n d pos1 [])"
| "parseObject_loop E 0 d pos obj = Inl Fuel_exhausted"
| "parseObject_loop E (Suc n) d pos obj =
     (if \<not> pos < length d then Inl (Unclosed_object pos)
      else (case parseObject_key d pos of
              Inl e \<Rightarrow> Inl e
            | Inr (key, pos4) \<Rightarrow>
                (case parse E n d pos4 of
                   Inl e \<Rightarrow> Inl e
                 | Inr (val, pos5) \<Rightarrow>
                     (case close_or_comma (CHR ''}'') Expected_comma_or_brace d pos5 of
                        Inl e \<Rightarrow> Inl e
                      | Inr (closed, pos6) \<Rightarrow>
                          if closed then Inr (map_set obj key val, pos6)
                          else parseObject_loop E n d pos6 (map_set obj key val)))))"
| "parseArray E n d pos =
     (let pos1 = skipWhitespace d (pos + 1)
      in if pos1 < length d \<and> d ! pos1 = CHR '']'' then Inr ([], pos1 + 1)
         else parseArray_loop E n d pos1 [])"
| "parseArray_loop E 0 d pos arr = Inl Fuel_exhausted"
| "parseArray_loop E (Suc n) d pos arr =
     (if \<not> pos < length d then Inl (Unclosed_array pos)
      else (case parse E n d pos of
              Inl e \<Rightarrow> Inl e
            | Inr (val, pos1) \<Rightarrow>
                (case close_or_comma (CHR '']'') Expected_comma_or_bracket d pos1 of
                   Inl e \<Rightarrow> Inl e
                 | Inr (closed, pos2) \<Rightarrow>
                     if closed then Inr (arr @ [val], pos2)
                     else parseArray_loop E n d (skipWhitespace d pos2) (arr @ [val]))))"
  by pat_completeness auto
termination
  by (relation "measure (\<lambda>x. case x of
         Inl (Inl (E, n, d, p)) \<Rightarrow> 2 * n
       | Inl (Inr (E, n, d, p)) \<Rightarrow> 2 * n + 1
       | Inr (Inl (E, n, d, p, obj)) \<Rightarrow> 2 * n
       | Inr (Inr (Inl (E, n, d, p))) \<Rightarrow> 2 * n + 1
       | Inr (Inr (Inr (E, n, d, p, arr))) \<Rightarrow> 2 * n)") auto

declare parse.simps [simp del] parseObject.simps [simp del] parseObject_loop.simps [simp del]
  parseArray.simps [simp del] parseArray_loop.simps [simp del]

text \<open>
  The targets \<^verbatim>\<open>unmarshalJSON\<close> switches on: \<^verbatim>\<open>*interface{}\<close>,
  \<^verbatim>\<open>*map[string]interface{}\<close>, \<^verbatim>\<open>*[]interface{}\<close>, and any other type, named.
\<close>

datatype target = Target_any | Target_map | Target_array | Target_other string

definition parse_fuel :: "bytes \<Rightarrow> nat" where
  "parse_fuel d = 2 * length d + 2"

definition unmarshalJSON :: "'f extern \<Rightarrow> bytes \<Rightarrow> target \<Rightarrow> error + 'f Value" where
  "unmarshalJSON E d t =
     (case parse E (parse_fuel d) d 0 of
        Inl e \<Rightarrow> Inl e
      | Inr (v, p) \<Rightarrow>
          (case t of
             Target_any \<Rightarrow> Inr v
           | Target_map \<Rightarrow>
               (case v of VMap m \<Rightarrow> Inr v | _ \<Rightarrow> Inl (Expected_map (type_name v)))
           | Target_array \<Rightarrow>
               (case v of VArray a \<Rightarrow> Inr v | _ \<Rightarrow> Inl (Expected_array (type_name v)))
           | Target_other ty \<Rightarrow> Inl (Unsupported_type ty)))"

subsection \<open>An instance of the library record\<close>

text \<open>
  The model runs on concrete inputs once the library record is given. \<open>ref_extern\<close>
  is an instance with one \<^verbatim>\<open>float64\<close>, the number 0.5: Go prints it as \<^verbatim>\<open>0.5\<close> in both
  formats and reads \<^verbatim>\<open>0.5\<close> back as it. Its codec for \<^verbatim>\<open>[]string\<close> writes
  \<^verbatim>\<open>["k1","k2"]\<close>, a backslash before each quote and backslash, and reads that form back
  (and \<^verbatim>\<open>null\<close> as the empty list); on keys of printable ASCII without \<^verbatim>\<open><\<close>, \<^verbatim>\<open>>\<close>
  and \<^verbatim>\<open>&\<close> these are the bytes of \<^verbatim>\<open>encoding/json\<close>.
\<close>

fun quote_body :: "string \<Rightarrow> string" where
  "quote_body [] = []"
| "quote_body (c # cs) =
     (if c = CHR 0x22 \<or> c = CHR 0x5C then CHR 0x5C # c # quote_body cs else c # quote_body cs)"

fun ref_Marshal_items :: "string list \<Rightarrow> string" where
  "ref_Marshal_items [] = []"
| "ref_Marshal_items [x] = CHR 0x22 # quote_body x @ [CHR 0x22]"
| "ref_Marshal_items (x # xs) = CHR 0x22 # quote_body x @ [CHR 0x22, CHR '',''] @ ref_Marshal_items xs"

definition ref_Marshal :: "string list \<Rightarrow> bytes" where
  "ref_Marshal xs = ''['' @ ref_Marshal_items xs @ '']''"

fun unquote_body :: "string \<Rightarrow> (string \<times> string) option" where
  "unquote_body [] = None"
| "unquote_body (c # cs) =
     (if c = CHR 0x22 then Some ([], cs)
      else if c = CHR 0x5C then
        (case cs of
           [] \<Rightarrow> None
         | e # r \<Rightarrow> (case unquote_body r of None \<Rightarrow> None | Some (s, r') \<Rightarrow> Some (e # s, r')))
      else (case unquote_body cs of None \<Rightarrow> None | Some (s, r') \<Rightarrow> Some (c # s, r')))"

fun ref_Unmarshal_items :: "nat \<Rightarrow> string \<Rightarrow> string list option" where
  "ref_Unmarshal_items 0 b = None"
| "ref_Unmarshal_items (Suc n) b =
     (case b of
        [] \<Rightarrow> None
      | c # r \<Rightarrow>
          if c \<noteq> CHR 0x22 then None
          else (case unquote_body r of
                  None \<Rightarrow> None
                | Some (x, r') \<Rightarrow>
                    if r' = '']'' then Some [x]
                    else (case r' of
                            [] \<Rightarrow> None
                          | c' # r'' \<Rightarrow>
                              if c' \<noteq> CHR '','' then None
                              else (case ref_Unmarshal_items n r'' of
                                      None \<Rightarrow> None
                                    | Some xs \<Rightarrow> Some (x # xs)))))"

definition ref_Unmarshal :: "bytes \<Rightarrow> error + string list" where
  "ref_Unmarshal b =
     (if b = ''null'' \<or> b = ''[]'' then Inr []
      else (case b of
              [] \<Rightarrow> Inl Json_library_error
            | c # r \<Rightarrow>
                if c \<noteq> CHR ''['' then Inl Json_library_error
                else (case ref_Unmarshal_items (length r) r of
                        None \<Rightarrow> Inl Json_library_error
                      | Some xs \<Rightarrow> Inr xs)))"

definition ref_extern :: "unit extern" where
  "ref_extern =
     \<lparr>FormatFloat = (\<lambda>_. ''0.5''),
      ParseFloat = (\<lambda>s. if s = ''0.5'' then Inr () else Inl ErrSyntax),
      SprintFloat = (\<lambda>_. ''0.5''),
      json_Marshal = ref_Marshal,
      json_Unmarshal = ref_Unmarshal\<rparr>"

subsection \<open>The backend\<close>

text \<open>
  The key/value engine is outside the repository. Its state is a map from keys to
  values. A transaction is the view the calls of one operation see, which starts as
  the state and takes every \<^verbatim>\<open>Put\<close> and \<^verbatim>\<open>Delete\<close>, with the number of backend calls made
  so far; \<^verbatim>\<open>Commit\<close> makes the view the state, and a transaction that is not committed is
  discarded (\<^verbatim>\<open>defer tx.Discard()\<close>). The oracle \<open>flt\<close> says which backend calls of an
  operation fail with an I/O error: call number \<open>n\<close> fails when \<open>flt n\<close>.
  \<open>Key_not_found\<close> is \<^verbatim>\<open>bitcask.ErrKeyNotFound\<close>.
\<close>

type_synonym store = "bytes \<rightharpoonup> bytes"

type_synonym txn = "store \<times> nat"

definition tx_Get :: "(nat \<Rightarrow> bool) \<Rightarrow> txn \<Rightarrow> bytes \<Rightarrow> (error + bytes) \<times> txn" where
  "tx_Get flt tx k =
     (if flt (snd tx) then (Inl Backend_error, (fst tx, snd tx + 1))
      else case fst tx k of
             None \<Rightarrow> (Inl Key_not_found, (fst tx, snd tx + 1))
           | Some v \<Rightarrow> (Inr v, (fst tx, snd tx + 1)))"

definition tx_Put :: "(nat \<Rightarrow> bool) \<Rightarrow> txn \<Rightarrow> bytes \<Rightarrow> bytes \<Rightarrow> error + txn" where
  "tx_Put flt tx k v =
     (if flt (snd tx) then Inl Backend_error else Inr ((fst tx)(k \<mapsto> v), snd tx + 1))"

definition tx_Delete :: "(nat \<Rightarrow> bool) \<Rightarrow> txn \<Rightarrow> bytes \<Rightarrow> error + txn" where
  "tx_Delete flt tx k =
     (if flt (snd tx) then Inl Backend_error else Inr ((fst tx)(k := None), snd tx + 1))"

definition tx_Commit :: "(nat \<Rightarrow> bool) \<Rightarrow> txn \<Rightarrow> error + store" where
  "tx_Commit flt tx = (if flt (snd tx) then Inl Backend_error else Inr (fst tx))"

text \<open>\<^verbatim>\<open>j.db.Get\<close> outside a transaction, as call number \<open>n\<close> of the operation.\<close>

definition db_Get :: "(nat \<Rightarrow> bool) \<Rightarrow> nat \<Rightarrow> store \<Rightarrow> bytes \<Rightarrow> error + bytes" where
  "db_Get flt n db k =
     (if flt n then Inl Backend_error
      else case db k of None \<Rightarrow> Inl Key_not_found | Some v \<Rightarrow> Inr v)"

subsection \<open>The document store\<close>

text \<open>
  \<^verbatim>\<open>fmt.Sprintf("%v", value)\<close> at the values a document holds: a string is printed as it
  is, a slice as \<^verbatim>\<open>[a b]\<close>, a map as \<^verbatim>\<open>map[k:v k:v]\<close> in the order of its keys.
\<close>

fun join_with :: "string \<Rightarrow> string list \<Rightarrow> string" where
  "join_with sep [] = []"
| "join_with sep [x] = x"
| "join_with sep (x # xs) = x @ sep @ join_with sep xs"

fun Sprint :: "'f extern \<Rightarrow> 'f Value \<Rightarrow> string"
  and Sprint_items :: "'f extern \<Rightarrow> 'f Value list \<Rightarrow> string list"
  and Sprint_fields :: "'f extern \<Rightarrow> (string \<times> 'f Value) list \<Rightarrow> (string \<times> string) list"
where
  "Sprint E VNil = ''<nil>''"
| "Sprint E (VBool b) = (if b then ''true'' else ''false'')"
| "Sprint E (VString s) = s"
| "Sprint E (VFloat64 x) = SprintFloat E x"
| "Sprint E (VInt i) = Itoa i"
| "Sprint E (VInt64 w) = Itoa (sint w)"
| "Sprint E (VArray xs) = ''['' @ join_with '' '' (Sprint_items E xs) @ '']''"
| "Sprint E (VMap kvs) =
     ''map['' @ join_with '' '' (map (\<lambda>kv. fst kv @ '':'' @ snd kv) (sort_key fst (Sprint_fields E kvs)))
       @ '']''"
| "Sprint_items E [] = []"
| "Sprint_items E (x # xs) = Sprint E x # Sprint_items E xs"
| "Sprint_fields E [] = []"
| "Sprint_fields E ((k, v) # kvs) = (k, Sprint E v) # Sprint_fields E kvs"

definition docKey :: "string \<Rightarrow> bytes" where
  "docKey key = ''doc:'' @ key"

definition indexKey :: "'f extern \<Rightarrow> string \<Rightarrow> 'f Value \<Rightarrow> bytes" where
  "indexKey E field v = ''index:'' @ field @ '':'' @ Sprint E v"

text \<open>
  The read of a posting list in \<^verbatim>\<open>Store\<close> and \<^verbatim>\<open>BatchStore\<close>: an absent key is the
  \<^verbatim>\<open>nil\<close> list, any other error of \<^verbatim>\<open>tx.Get\<close> and any error of \<^verbatim>\<open>json.Unmarshal\<close> is
  returned.
\<close>

definition read_postings :: "'f extern \<Rightarrow> (nat \<Rightarrow> bool) \<Rightarrow> txn \<Rightarrow> bytes \<Rightarrow> error + (string list \<times> txn)" where
  "read_postings E flt tx ik =
     (case tx_Get flt tx ik of
        (Inl e, tx1) \<Rightarrow> if e \<noteq> Key_not_found then Inl e else Inr ([], tx1)
      | (Inr current, tx1) \<Rightarrow>
          (case json_Unmarshal E current of Inl e \<Rightarrow> Inl e | Inr keyList \<Rightarrow> Inr (keyList, tx1)))"

text \<open>The loop over \<^verbatim>\<open>j.indexedFields\<close> in \<^verbatim>\<open>Store\<close> and \<^verbatim>\<open>BatchStore\<close>.\<close>

fun index_add ::
  "'f extern \<Rightarrow> (nat \<Rightarrow> bool) \<Rightarrow> string \<Rightarrow> (string \<times> 'f Value) list \<Rightarrow> string list \<Rightarrow> txn \<Rightarrow> error + txn"
where
  "index_add E flt key docMap [] tx = Inr tx"
| "index_add E flt key docMap (field # flds) tx =
     (case map_of docMap field of
        None \<Rightarrow> index_add E flt key docMap flds tx
      | Some v \<Rightarrow>
          (case read_postings E flt tx (indexKey E field v) of
             Inl e \<Rightarrow> Inl e
           | Inr (keyList, tx1) \<Rightarrow>
               (case tx_Put flt tx1 (indexKey E field v)
                       (json_Marshal E (if key \<in> set keyList then keyList else keyList @ [key])) of
                  Inl e \<Rightarrow> Inl e
                | Inr tx2 \<Rightarrow> index_add E flt key docMap flds tx2)))"

text \<open>
  What \<^verbatim>\<open>Store\<close> does between opening the transaction and committing it, which is also
  the body of the loop of \<^verbatim>\<open>BatchStore\<close>, line for line.
\<close>

definition store_item ::
  "'f extern \<Rightarrow> (nat \<Rightarrow> bool) \<Rightarrow> string list \<Rightarrow> string \<Rightarrow> 'f Value \<Rightarrow> txn \<Rightarrow> error + txn"
where
  "store_item E flt flds key document tx =
     (case document of
        VMap docMap \<Rightarrow>
          (case marshalJSON E document of
             Inl e \<Rightarrow> Inl e
           | Inr data \<Rightarrow>
               (case tx_Put flt tx (docKey key) data of
                  Inl e \<Rightarrow> Inl e
                | Inr tx1 \<Rightarrow> index_add E flt key docMap flds tx1))
      | _ \<Rightarrow> Inl Document_must_be_map)"

text \<open>
  Every operation returns its error (\<open>None\<close> for \<^verbatim>\<open>nil\<close>) and the state of the backend
  behind the call.
\<close>

definition commit :: "(nat \<Rightarrow> bool) \<Rightarrow> store \<Rightarrow> error + txn \<Rightarrow> error option \<times> store" where
  "commit flt db r =
     (case r of
        Inl e \<Rightarrow> (Some e, db)
      | Inr tx \<Rightarrow> (case tx_Commit flt tx of Inl e \<Rightarrow> (Some e, db) | Inr db' \<Rightarrow> (None, db')))"

definition Store ::
  "'f extern \<Rightarrow> (nat \<Rightarrow> bool) \<Rightarrow> string list \<Rightarrow> store \<Rightarrow> string \<Rightarrow> 'f Value \<Rightarrow> error option \<times> store"
where
  "Store E flt flds db key document = commit flt db (store_item E flt flds key document (db, 0))"



definition Retrieve :: "'f extern \<Rightarrow> (nat \<Rightarrow> bool) \<Rightarrow> store \<Rightarrow> string \<Rightarrow> target \<Rightarrow> error + 'f Value" where
  "Retrieve E flt db key t =
     (case db_Get flt 0 db (docKey key) of
        Inl e \<Rightarrow> if e = Key_not_found then Inl Document_not_found else Inl e
      | Inr data \<Rightarrow> unmarshalJSON E data t)"

text \<open>The loop over \<^verbatim>\<open>j.indexedFields\<close> in \<^verbatim>\<open>Delete\<close>.\<close>

fun index_remove ::
  "'f extern \<Rightarrow> (nat \<Rightarrow> bool) \<Rightarrow> string \<Rightarrow> (string \<times> 'f Value) list \<Rightarrow> string list \<Rightarrow> txn \<Rightarrow> error + txn"
where
  "index_remove E flt key docMap [] tx = Inr tx"
| "index_remove E flt key docMap (field # flds) tx =
     (case map_of docMap field of
        None \<Rightarrow> index_remove E flt key docMap flds tx
      | Some v \<Rightarrow>
          (case tx_Get flt tx (indexKey E field v) of
             (Inl e, tx1) \<Rightarrow>
               if e \<noteq> Key_not_found then Inl e else index_remove E flt key docMap flds tx1
           | (Inr current, tx1) \<Rightarrow>
               (case json_Unmarshal E current of
                  Inl e \<Rightarrow> Inl e
                | Inr keyList \<Rightarrow>
                    (case (if filter (\<lambda>k. k \<noteq> key) keyList \<noteq> []
                           then tx_Put flt tx1 (indexKey E field v)
                                  (json_Marshal E (filter (\<lambda>k. k \<noteq> key) keyList))
                           else tx_Delete flt tx1 (indexKey E field v)) of
                       Inl e \<Rightarrow> Inl e
                     | Inr tx2 \<Rightarrow> index_remove E flt key docMap flds tx2))))"

definition Delete ::
  "'f extern \<Rightarrow> (nat \<Rightarrow> bool) \<Rightarrow> string list \<Rightarrow> store \<Rightarrow> string \<Rightarrow> error option \<times> store"
where
  "Delete E flt flds db key =
     (case tx_Get flt (db, 0) (docKey key) of
        (Inl e, tx1) \<Rightarrow> if e = Key_not_found then commit flt db (Inr tx1) else (Some e, db)
      | (Inr data, tx1) \<Rightarrow>
          (case unmarshalJSON E data Target_map of
             Inl e \<Rightarrow> (Some e, db)
           | Inr document \<Rightarrow>
               (case document of
                  VMap docMap \<Rightarrow>
                    commit flt db
                      (case index_remove E flt key docMap flds tx1 of
                         Inl e \<Rightarrow> Inl e
                       | Inr tx2 \<Rightarrow> tx_Delete flt tx2 (docKey key))
                | _ \<Rightarrow> (Some (Expected_map (type_name document)), db))))"

text \<open>A run-time panic is no \<^verbatim>\<open>err\<close> that the loop of \<^verbatim>\<open>Query\<close> could skip.\<close>

fun is_panic :: "error \<Rightarrow> bool" where
  "is_panic (Panic_index_out_of_range i n) = True"
| "is_panic _ = False"

text \<open>The loop of \<^verbatim>\<open>Query\<close> over the posting list; \<open>n\<close> numbers its backend calls.\<close>

fun query_docs :: "'f extern \<Rightarrow> (nat \<Rightarrow> bool) \<Rightarrow> store \<Rightarrow> nat \<Rightarrow> string list \<Rightarrow> error + 'f Value list" where
  "query_docs E flt db n [] = Inr []"
| "query_docs E flt db n (k # ks) =
     (case db_Get flt n db (docKey k) of
        Inl e \<Rightarrow> query_docs E flt db (n + 1) ks
      | Inr docData \<Rightarrow>
          (case unmarshalJSON E docData Target_map of
             Inl e \<Rightarrow> if is_panic e then Inl e else query_docs E flt db (n + 1) ks
           | Inr doc \<Rightarrow>
               (case query_docs E flt db (n + 1) ks of
                  Inl e \<Rightarrow> Inl e
                | Inr results \<Rightarrow> Inr (doc # results))))"

definition Query ::
  "'f extern \<Rightarrow> (nat \<Rightarrow> bool) \<Rightarrow> string list \<Rightarrow> store \<Rightarrow> string \<Rightarrow> 'f Value \<Rightarrow> error + 'f Value list"
where
  "Query E flt flds db field v =
     (if field \<notin> set flds then Inl Field_not_indexed
      else case db_Get flt 0 db (indexKey E field v) of
             Inl e \<Rightarrow> if e = Key_not_found then Inr [] else Inl e
           | Inr data \<Rightarrow>
               (case json_Unmarshal E data of
                  Inl e \<Rightarrow> Inl e
                | Inr keyList \<Rightarrow> query_docs E flt db 1 keyList))"



subsection \<open>Well-formed posting lists\<close>



section \<open>Properties\<close>

subsection \<open>The encoder has no case for \<^verbatim>\<open>int64\<close>\<close>

lemma writeJSON_error_kind:
  "writeJSON E v = Inl e \<Longrightarrow> e = Unsupported_type ''int64''"
  "writeJSON_items E i xs = Inl e \<Longrightarrow> e = Unsupported_type ''int64''"
  "writeJSON_fields E first kvs = Inl e \<Longrightarrow> e = Unsupported_type ''int64''"
  by (induction E v and E i xs and E first kvs arbitrary: e and e and e
       rule: writeJSON_writeJSON_items_writeJSON_fields.induct)
     (auto split: sum.splits)

lemma writeJSON_fields_fail:
  "(k, v) \<in> set kvs \<Longrightarrow> isl (writeJSON E v) \<Longrightarrow> isl (writeJSON_fields E first kvs)"
proof (induction kvs arbitrary: first)
  case Nil
  then show ?case by simp
next
  case (Cons a kvs)
  obtain k' v' where a: "a = (k', v')" by (cases a)
  show ?case
  proof (cases "(k, v) = a")
    case True
    with Cons.prems a show ?thesis by (auto split: sum.splits)
  next
    case False
    with Cons.prems have "(k, v) \<in> set kvs" by simp
    then have "isl (writeJSON_fields E False kvs)" using Cons.IH Cons.prems(2) by blast
    then show ?thesis using a by (auto split: sum.splits)
  qed
qed

subsection \<open>Positions only move forward, and fuel never runs out\<close>

lemma skipWhitespace_ge: "pos \<le> skipWhitespace d pos"
  by (induction d pos rule: skipWhitespace.induct) (subst skipWhitespace.simps, auto)

lemma skipWhitespace_le: "pos \<le> length d \<Longrightarrow> skipWhitespace d pos \<le> length d"
  by (induction d pos rule: skipWhitespace.induct) (subst skipWhitespace.simps, auto)

lemma skipWhitespace_id: "pos \<ge> length d \<or> \<not> is_space (d ! pos) \<Longrightarrow> skipWhitespace d pos = pos"
  by (subst skipWhitespace.simps) auto

lemma skipWhitespace_stop:
  "skipWhitespace d pos < length d \<Longrightarrow> \<not> is_space (d ! skipWhitespace d pos)"
  by (induction d pos rule: skipWhitespace.induct) (subst (asm) (2) skipWhitespace.simps, subst skipWhitespace.simps, auto split: if_splits)

lemma scanNumber_ge: "pos \<le> scanNumber d pos"
  by (induction d pos rule: scanNumber.induct) (subst scanNumber.simps, auto)

lemma scanNumber_le: "pos \<le> length d \<Longrightarrow> scanNumber d pos \<le> length d"
  by (induction d pos rule: scanNumber.induct) (subst scanNumber.simps, auto)

lemma scanNumber_gt: "pos < length d \<Longrightarrow> is_num_char (d ! pos) \<Longrightarrow> pos < scanNumber d pos"
  using scanNumber_ge [of "pos + 1" d] by (subst scanNumber.simps) auto

lemma parseString_loop_pos:
  "parseString_loop d pos sb = Inr (s, p) \<Longrightarrow> pos < p \<and> p \<le> length d"
proof (induction "length d - pos" arbitrary: pos sb rule: less_induct)
  case less
  have step: "pos < p \<and> p \<le> length d"
    if "parseString_loop d pos' sb' = Inr (s, p)" "pos < pos'" "pos < length d" for pos' sb'
    using less.hyps [of pos' sb'] that by force
  from less.prems show ?case
    by (subst (asm) parseString_loop.simps) (auto split: if_splits sum.splits dest: step)
qed

lemma parseString_pos: "parseString d pos = Inr (s, p) \<Longrightarrow> pos + 1 < p \<and> p \<le> length d"
  unfolding parseString_def by (drule parseString_loop_pos) simp

lemma parseNumber_pos:
  "parseNumber E d pos = Inr (v, p) \<Longrightarrow> pos < length d \<Longrightarrow> is_num_char (d ! pos)
   \<Longrightarrow> pos < p \<and> p \<le> length d"
  using scanNumber_gt [of pos d] scanNumber_le [of pos d]
  by (auto simp: parseNumber_def Let_def split: if_splits sum.splits)

lemma parse_leaf_pos:
  "parse_leaf E d pos = Inr (v, p) \<Longrightarrow> pos < length d \<Longrightarrow> pos < p \<and> p \<le> length d"
  unfolding parse_leaf_def
  by (auto split: if_splits sum.splits dest!: parseString_pos parseNumber_pos simp: is_num_char_def)

lemma parseObject_key_pos:
  "parseObject_key d pos = Inr (k, p) \<Longrightarrow> pos < p \<and> p \<le> length d"
  unfolding parseObject_key_def Let_def
  using skipWhitespace_ge [of pos d]
  apply (auto split: if_splits sum.splits dest!: parseString_pos)
  subgoal for p2 
    using skipWhitespace_ge [of p2 d] skipWhitespace_ge [of "Suc (skipWhitespace d p2)" d] by linarith
  subgoal for p2
    using skipWhitespace_le [of "Suc (skipWhitespace d p2)" d] by linarith
  done

lemma close_or_comma_pos:
  "close_or_comma c err d pos = Inr (b, p) \<Longrightarrow> pos < p \<and> p \<le> length d"
  unfolding close_or_comma_def Let_def
  using skipWhitespace_ge [of pos d]
  by (auto split: if_splits)

lemma skipWhitespace_lt_D: "skipWhitespace d b < p \<Longrightarrow> b < p"
  using skipWhitespace_ge [of b d] by simp

lemma parse_pos_aux:
  "(\<forall>d pos v p. parse E n d pos = Inr (v, p) \<longrightarrow> pos < p \<and> p \<le> length d)
   \<and> (\<forall>d pos obj r p. parseObject_loop E n d pos obj = Inr (r, p) \<longrightarrow> pos < p \<and> p \<le> length d)
   \<and> (\<forall>d pos arr r p. parseArray_loop E n d pos arr = Inr (r, p) \<longrightarrow> pos < p \<and> p \<le> length d)"
proof (induction n)
  case 0
  show ?case by (simp add: parse.simps parseObject_loop.simps parseArray_loop.simps)
next
  case (Suc n)
  then have IHp: "\<And>d pos v p. parse E n d pos = Inr (v, p) \<Longrightarrow> pos < p \<and> p \<le> length d"
    and IHo: "\<And>d pos obj r p. parseObject_loop E n d pos obj = Inr (r, p) \<Longrightarrow> pos < p \<and> p \<le> length d"
    and IHa: "\<And>d pos arr r p. parseArray_loop E n d pos arr = Inr (r, p) \<Longrightarrow> pos < p \<and> p \<le> length d"
    by blast+
  have obj: "pos < p \<and> p \<le> length d" if "parseObject E n d pos = Inr (r, p)" for d pos r p
    using that skipWhitespace_ge [of "pos + 1" d]
    by (auto simp: parseObject.simps Let_def split: if_splits dest!: IHo)
  have arr: "pos < p \<and> p \<le> length d" if "parseArray E n d pos = Inr (r, p)" for d pos r p
    using that skipWhitespace_ge [of "pos + 1" d]
    by (auto simp: parseArray.simps Let_def split: if_splits dest!: IHa)
  have 1: "pos < p \<and> p \<le> length d" if "parse E (Suc n) d pos = Inr (v, p)" for d pos v p
    using that skipWhitespace_ge [of pos d]
    by (auto simp: parse.simps Let_def split: if_splits sum.splits dest!: obj arr parse_leaf_pos)
  have 2: "pos < p \<and> p \<le> length d" if "parseObject_loop E (Suc n) d pos obj = Inr (r, p)" for d pos obj r p
    using that
    by (auto simp: parseObject_loop.simps split: if_splits sum.splits
             dest!: parseObject_key_pos IHp IHo close_or_comma_pos)
  have 3: "pos < p \<and> p \<le> length d" if "parseArray_loop E (Suc n) d pos arr = Inr (r, p)" for d pos arr r p
    using that
    by (auto simp: parseArray_loop.simps split: if_splits sum.splits
             dest!: IHp IHa close_or_comma_pos skipWhitespace_lt_D)
  from 1 2 3 show ?case by blast
qed

lemma parse_pos: "parse E n d pos = Inr (v, p) \<Longrightarrow> pos < p \<and> p \<le> length d"
  using parse_pos_aux by blast

lemma parseObject_loop_pos: "parseObject_loop E n d pos obj = Inr (r, p) \<Longrightarrow> pos < p \<and> p \<le> length d"
  using parse_pos_aux by blast

lemma parseArray_loop_pos: "parseArray_loop E n d pos arr = Inr (r, p) \<Longrightarrow> pos < p \<and> p \<le> length d"
  using parse_pos_aux by blast

lemma fuel_step_aux:
  "(\<forall>d pos. parse E n d pos \<noteq> Inl Fuel_exhausted \<longrightarrow> parse E (Suc n) d pos = parse E n d pos)
   \<and> (\<forall>d pos obj. parseObject_loop E n d pos obj \<noteq> Inl Fuel_exhausted
         \<longrightarrow> parseObject_loop E (Suc n) d pos obj = parseObject_loop E n d pos obj)
   \<and> (\<forall>d pos arr. parseArray_loop E n d pos arr \<noteq> Inl Fuel_exhausted
         \<longrightarrow> parseArray_loop E (Suc n) d pos arr = parseArray_loop E n d pos arr)"
proof (induction n)
  case 0
  show ?case by (simp add: parse.simps parseObject_loop.simps parseArray_loop.simps)
next
  case (Suc n)
  then have IHp: "\<And>d pos. parse E n d pos \<noteq> Inl Fuel_exhausted \<Longrightarrow> parse E (Suc n) d pos = parse E n d pos"
    and IHo: "\<And>d pos obj. parseObject_loop E n d pos obj \<noteq> Inl Fuel_exhausted
         \<Longrightarrow> parseObject_loop E (Suc n) d pos obj = parseObject_loop E n d pos obj"
    and IHa: "\<And>d pos arr. parseArray_loop E n d pos arr \<noteq> Inl Fuel_exhausted
         \<Longrightarrow> parseArray_loop E (Suc n) d pos arr = parseArray_loop E n d pos arr"
    by blast+
  have obj: "parseObject E (Suc n) d pos = parseObject E n d pos"
    if "parseObject E n d pos \<noteq> Inl Fuel_exhausted" for d pos
    using that by (auto simp: parseObject.simps Let_def IHo split: if_splits)
  have arr: "parseArray E (Suc n) d pos = parseArray E n d pos"
    if "parseArray E n d pos \<noteq> Inl Fuel_exhausted" for d pos
    using that by (auto simp: parseArray.simps Let_def IHa split: if_splits)
  have 1: "parse E (Suc (Suc n)) d pos = parse E (Suc n) d pos"
    if "parse E (Suc n) d pos \<noteq> Inl Fuel_exhausted" for d pos
  proof -
    let ?q = "skipWhitespace d pos"
    from that have "parseObject E n d ?q \<noteq> Inl Fuel_exhausted" if "\<not> length d \<le> ?q" "d ! ?q = CHR ''{''"
      using that by (auto simp: parse.simps(2) [of E n d pos] Let_def)
    moreover from \<open>parse E (Suc n) d pos \<noteq> Inl Fuel_exhausted\<close>
    have "parseArray E n d ?q \<noteq> Inl Fuel_exhausted"
      if "\<not> length d \<le> ?q" "d ! ?q \<noteq> CHR ''{''" "d ! ?q = CHR ''[''"
      using that by (auto simp: parse.simps(2) [of E n d pos] Let_def)
    ultimately show ?thesis
      by (simp add: parse.simps(2) [of E n d pos] parse.simps(2) [of E "Suc n" d pos] Let_def obj arr)
  qed
  have 2: "parseObject_loop E (Suc (Suc n)) d pos obj = parseObject_loop E (Suc n) d pos obj"
    if "parseObject_loop E (Suc n) d pos obj \<noteq> Inl Fuel_exhausted" for d pos obj
    using that
    by (auto simp: parseObject_loop.simps(2) [of E n d pos obj]
                   parseObject_loop.simps(2) [of E "Suc n" d pos obj] IHp IHo
             split: if_splits sum.splits)
  have 3: "parseArray_loop E (Suc (Suc n)) d pos arr = parseArray_loop E (Suc n) d pos arr"
    if "parseArray_loop E (Suc n) d pos arr \<noteq> Inl Fuel_exhausted" for d pos arr
    using that
    by (auto simp: parseArray_loop.simps(2) [of E n d pos arr]
                   parseArray_loop.simps(2) [of E "Suc n" d pos arr] IHp IHa
             split: if_splits sum.splits)
  from 1 2 3 show ?case by blast
qed

lemma parse_fuel_mono:
  "parse E n d pos \<noteq> Inl Fuel_exhausted \<Longrightarrow> n \<le> m \<Longrightarrow> parse E m d pos = parse E n d pos"
proof (induction m)
  case 0
  then show ?case by simp
next
  case (Suc m)
  show ?case
  proof (cases "n = Suc m")
    case True
    then show ?thesis by simp
  next
    case False
    with Suc have "parse E m d pos = parse E n d pos" by simp
    with Suc.prems(1) show ?thesis using fuel_step_aux [of E m] by metis
  qed
qed

lemma parseString_loop_no_fuel: "parseString_loop d pos sb \<noteq> Inl Fuel_exhausted"
proof (induction "length d - pos" arbitrary: pos sb rule: less_induct)
  case less
  have step: "parseString_loop d pos' sb' \<noteq> Inl Fuel_exhausted" if "pos < pos'" "pos < length d" for pos' sb'
    using less.hyps [of pos' sb'] that by force
  show ?case
    by (subst parseString_loop.simps) (auto split: sum.splits simp: step)
qed

lemma parse_leaf_no_fuel: "parse_leaf E d pos \<noteq> Inl Fuel_exhausted"
  using parseString_loop_no_fuel [of d "pos + 1" "[]"]
  by (auto simp: parse_leaf_def parseString_def parseNumber_def Let_def split: sum.splits)

lemma parseObject_key_no_fuel: "parseObject_key d pos \<noteq> Inl Fuel_exhausted"
  using parseString_loop_no_fuel [of d "skipWhitespace d pos + 1" "[]"]
  by (auto simp: parseObject_key_def parseString_def Let_def split: sum.splits)

lemma close_or_comma_no_fuel:
  "close_or_comma (CHR ''}'') Expected_comma_or_brace d pos \<noteq> Inl Fuel_exhausted"
  "close_or_comma (CHR '']'') Expected_comma_or_bracket d pos \<noteq> Inl Fuel_exhausted"
  by (auto simp: close_or_comma_def Let_def)

lemma fuel_enough_aux:
  "(\<forall>d pos. 2 * (length d - pos) < n \<longrightarrow> parse E n d pos \<noteq> Inl Fuel_exhausted)
   \<and> (\<forall>d pos obj. 2 * (length d - pos) + 1 < n \<longrightarrow> parseObject_loop E n d pos obj \<noteq> Inl Fuel_exhausted)
   \<and> (\<forall>d pos arr. 2 * (length d - pos) + 1 < n \<longrightarrow> parseArray_loop E n d pos arr \<noteq> Inl Fuel_exhausted)"
proof (induction n)
  case 0
  show ?case by simp
next
  case (Suc n)
  then have IHp: "\<And>d pos. 2 * (length d - pos) < n \<Longrightarrow> parse E n d pos \<noteq> Inl Fuel_exhausted"
    and IHo: "\<And>d pos obj. 2 * (length d - pos) + 1 < n \<Longrightarrow> parseObject_loop E n d pos obj \<noteq> Inl Fuel_exhausted"
    and IHa: "\<And>d pos arr. 2 * (length d - pos) + 1 < n \<Longrightarrow> parseArray_loop E n d pos arr \<noteq> Inl Fuel_exhausted"
    by blast+
  have 1: "parse E (Suc n) d pos \<noteq> Inl Fuel_exhausted" if "2 * (length d - pos) < Suc n" for d pos
  proof -
    let ?q = "skipWhitespace d pos"
    let ?q1 = "skipWhitespace d (?q + 1)"
    have q: "pos \<le> ?q" "?q + 1 \<le> ?q1" by (rule skipWhitespace_ge)+
    have "2 * (length d - ?q1) + 1 < n" if "?q < length d"
      using that q \<open>2 * (length d - pos) < Suc n\<close> by linarith
    then have "parseObject E n d ?q \<noteq> Inl Fuel_exhausted" "parseArray E n d ?q \<noteq> Inl Fuel_exhausted"
      if "?q < length d"
      using that by (auto simp: parseObject.simps parseArray.simps Let_def IHo IHa)
    then show ?thesis
      by (auto simp: parse.simps Let_def parse_leaf_no_fuel split: sum.splits)
  qed
  have 2: "parseObject_loop E (Suc n) d pos obj \<noteq> Inl Fuel_exhausted"
    if "2 * (length d - pos) + 1 < Suc n" for d pos obj
  proof (cases "pos < length d")
    case False
    then show ?thesis by (simp add: parseObject_loop.simps)
  next
    case True
    have a: "parse E n d p4 \<noteq> Inl Fuel_exhausted" if "pos < p4" for p4
      using that \<open>2 * (length d - pos) + 1 < Suc n\<close> by (intro IHp) linarith
    have b: "parseObject_loop E n d p6 obj' \<noteq> Inl Fuel_exhausted" if "pos < p6" for p6 obj'
      using that True \<open>2 * (length d - pos) + 1 < Suc n\<close> by (intro IHo) linarith
    show ?thesis
      using parseObject_key_no_fuel [of d pos]
      apply (auto simp: parseObject_loop.simps close_or_comma_no_fuel split: sum.splits)
        apply (auto dest!: parseObject_key_pos parse_pos close_or_comma_pos simp: a b)
      done
  qed
  have 3: "parseArray_loop E (Suc n) d pos arr \<noteq> Inl Fuel_exhausted"
    if "2 * (length d - pos) + 1 < Suc n" for d pos arr
  proof (cases "pos < length d")
    case False
    then show ?thesis by (simp add: parseArray_loop.simps)
  next
    case True
    have a: "parse E n d pos \<noteq> Inl Fuel_exhausted"
      using \<open>2 * (length d - pos) + 1 < Suc n\<close> by (intro IHp) linarith
    have b: "parseArray_loop E n d (skipWhitespace d p2) arr' \<noteq> Inl Fuel_exhausted" if "pos < p2" for p2 arr'
      using that True \<open>2 * (length d - pos) + 1 < Suc n\<close> skipWhitespace_ge [of p2 d]
      by (intro IHa) linarith
    show ?thesis
      using a
      apply (auto simp: parseArray_loop.simps close_or_comma_no_fuel split: sum.splits)
      apply (auto dest!: parse_pos close_or_comma_pos simp: b)
      done
  qed
  from 1 2 3 show ?case by blast
qed

lemma unmarshalJSON_fuel: "parse E (parse_fuel d) d 0 \<noteq> Inl Fuel_exhausted"
  using fuel_enough_aux [of "parse_fuel d" E] by (simp add: parse_fuel_def)

lemma parse_fuel_canon:
  "parse E n d 0 = Inr r \<Longrightarrow> parse E (parse_fuel d) d 0 = Inr r"
proof -
  assume a: "parse E n d 0 = Inr r"
  let ?m = "max n (parse_fuel d)"
  from a have "parse E ?m d 0 = Inr r" using parse_fuel_mono [of E n d 0 ?m] by simp
  moreover have "parse E ?m d 0 = parse E (parse_fuel d) d 0"
    by (rule parse_fuel_mono [OF unmarshalJSON_fuel]) simp
  ultimately show ?thesis by simp
qed

subsection \<open>An object that ends in a comma and whitespace\<close>

lemma trailing_comma_run:
  assumes len: "length d = 8"
    and nth: "d ! 0 = CHR ''{''" "d ! Suc 0 = CHR 0x22" "d ! 2 = CHR ''a''" "d ! 3 = CHR 0x22"
      "d ! 4 = CHR '':''" "d ! 5 = CHR ''1''" "d ! 6 = CHR '',''" "d ! 7 = CHR '' ''"
    and sl: "slice d 5 6 = ''1''"
  shows "parse E (Suc (Suc (Suc (Suc n)))) d 0 = Inl (Panic_index_out_of_range 8 8)"
proof -
  have sw: "skipWhitespace d 0 = 0" "skipWhitespace d (Suc 0) = Suc 0" "skipWhitespace d 4 = 4"
    "skipWhitespace d 5 = 5" "skipWhitespace d 6 = 6" "skipWhitespace d 7 = 8"
    by (simp_all add: len nth skipWhitespace.simps is_space_def)
  have "parseString_loop d 2 [] = Inr (''a'', 4)"
    by (simp add: parseString_loop.simps len nth)
  then have str: "parseString d (Suc 0) = Inr (''a'', 4)"
    by (simp add: parseString_def numeral_2_eq_2)
  have key: "parseObject_key d (Suc 0) = Inr (''a'', 5)"
    by (simp add: parseObject_key_def sw str len nth)
  have sc: "scanNumber d 5 = 6"
    by (simp add: scanNumber.simps len nth is_num_char_def is_digit_def less_eq_char_def)
  have num: "parseNumber E d 5 = Inr (VInt64 1, 6)"
    by (simp add: parseNumber_def sc sl is_digit_def less_eq_char_def
        has_marker_def ParseInt_def ParseUint10_def digit_val_def)
  have val: "parse E (Suc m) d 5 = Inr (VInt64 1, 6)" for m
    by (simp add: parse.simps sw parse_leaf_def num len nth is_digit_def less_eq_char_def)
  have sep: "close_or_comma (CHR ''}'') Expected_comma_or_brace d 6 = Inr (False, 7)"
    by (simp add: close_or_comma_def sw len nth)
  have key2: "parseObject_key d 7 = Inl (Panic_index_out_of_range 8 8)"
    by (simp add: parseObject_key_def sw len)
  have loop2: "parseObject_loop E (Suc m) d 7 obj = Inl (Panic_index_out_of_range 8 8)" for m obj
    by (simp add: parseObject_loop.simps key2 len)
  have loop1: "parseObject_loop E (Suc (Suc m)) d (Suc 0) [] = Inl (Panic_index_out_of_range 8 8)" for m
    by (subst parseObject_loop.simps) (simp add: key val sep loop2 len)
  have obj: "parseObject E (Suc (Suc m)) d 0 = Inl (Panic_index_out_of_range 8 8)" for m
    by (simp add: parseObject.simps sw loop1 len nth)
  show ?thesis
    by (simp add: parse.simps sw obj len nth)
qed

text \<open>
  C7. The decoder is not total. At the eight bytes \<^verbatim>\<open>{"a":1, \<close> the loop of
  \<^verbatim>\<open>parseObject\<close> is entered a second time (a byte is left behind the comma), the
  whitespace is skipped up to the end of the input, and \<^verbatim>\<open>p.data[p.pos]\<close> is read at
  index 8 of 8 bytes: the run ends in a panic, not in the unclosed-object error.
\<close>

theorem trailing_comma_panics:
  \<open>unmarshalJSON E ''{"a":1, '' t = Inl (Panic_index_out_of_range 8 8)\<close>
proof -
  have \<open>parse_fuel ''{"a":1, '' = Suc (Suc (Suc (Suc 14)))\<close> by (simp add: parse_fuel_def)
  moreover have \<open>parse E (Suc (Suc (Suc (Suc 14)))) ''{"a":1, '' 0 = Inl (Panic_index_out_of_range 8 8)\<close>
    by (rule trailing_comma_run) (simp_all add: slice_def)
  ultimately show ?thesis
    unfolding unmarshalJSON_def by simp
qed

subsection \<open>The codec of \<open>ref_extern\<close> reads back what it writes\<close>

lemma unquote_quote: "unquote_body (quote_body s @ CHR 0x22 # rest) = Some (s, rest)"
  by (induction s) auto

lemma ref_items_roundtrip:
  "xs \<noteq> [] \<Longrightarrow> length xs \<le> n \<Longrightarrow> ref_Unmarshal_items n (ref_Marshal_items xs @ '']'') = Some xs"
proof (induction xs arbitrary: n rule: ref_Marshal_items.induct)
  case 1
  then show ?case by simp
next
  case (2 x)
  then obtain m where "n = Suc m" by (cases n) auto
  then show ?case by (simp add: unquote_quote)
next
  case (3 x y ys)
  then obtain m where n: "n = Suc m" by (cases n) auto
  with 3 have "ref_Unmarshal_items m (ref_Marshal_items (y # ys) @ '']'') = Some (y # ys)" by simp
  with n show ?case by (simp add: unquote_quote)
qed

lemma ref_Marshal_items_length: "length xs \<le> length (ref_Marshal_items xs)"
  by (induction xs rule: ref_Marshal_items.induct) auto

lemma ref_roundtrip: "ref_Unmarshal (ref_Marshal xs) = Inr xs"
proof (cases "xs = []")
  case True
  then show ?thesis by (simp add: ref_Unmarshal_def ref_Marshal_def)
next
  case False
  then have ne: "ref_Marshal_items xs \<noteq> []" by (cases xs rule: ref_Marshal_items.cases) auto
  then have "ref_Marshal xs \<noteq> ''null''" "ref_Marshal xs \<noteq> ''[]''"
    by (auto simp: ref_Marshal_def)
  moreover have "ref_Unmarshal_items (length (ref_Marshal_items xs @ '']''))
      (ref_Marshal_items xs @ '']'') = Some xs"
    using ref_Marshal_items_length [of xs] False by (intro ref_items_roundtrip) simp_all
  ultimately show ?thesis
    by (simp add: ref_Unmarshal_def ref_Marshal_def del: ref_Unmarshal_items.simps)
qed

subsection \<open>Decimal numerals and \<^verbatim>\<open>ParseInt\<close>\<close>

lemma digit_char_props:
  assumes "k < 10"
  shows "is_digit (digit_char k)" "digit_val (digit_char k) = k" "is_num_char (digit_char k)"
    "digit_char k \<noteq> CHR ''-''" "digit_char k \<noteq> CHR ''+''" "digit_char k \<noteq> CHR ''.''"
    "digit_char k \<noteq> CHR ''e''" "digit_char k \<noteq> CHR ''E''"
proof -
  have *: "of_char (digit_char k) = 48 + k"
    using assms by (simp add: digit_char_def)
  show "is_digit (digit_char k)" using assms * by (simp add: is_digit_def less_eq_char_def)
  then show "is_num_char (digit_char k)" by (simp add: is_num_char_def)
  show "digit_val (digit_char k) = k" using * by (simp add: digit_val_def)
  show "digit_char k \<noteq> CHR ''-''" "digit_char k \<noteq> CHR ''+''" "digit_char k \<noteq> CHR ''.''"
    "digit_char k \<noteq> CHR ''e''" "digit_char k \<noteq> CHR ''E''"
    using * assms by (auto dest!: arg_cong [where f = "of_char :: char \<Rightarrow> nat"])
qed

definition digits_value :: "nat \<Rightarrow> string \<Rightarrow> nat" where
  "digits_value n ds = foldl (\<lambda>a c. a * 10 + digit_val c) n ds"

lemma digits_value_simps [simp]:
  "digits_value n [] = n"
  "digits_value n (c # cs) = digits_value (n * 10 + digit_val c) cs"
  "digits_value n (xs @ ys) = digits_value (digits_value n xs) ys"
  by (simp_all add: digits_value_def)

lemma digits_value_ge: "n \<le> digits_value n ds"
proof (induction ds arbitrary: n)
  case Nil
  show ?case by simp
next
  case (Cons c cs)
  have "n \<le> n * 10 + digit_val c" by simp
  also have "\<dots> \<le> digits_value (n * 10 + digit_val c) cs" by (rule Cons.IH)
  finally show ?case by simp
qed

lemma decimal_digits: "\<forall>c \<in> set (decimal n). is_digit c"
proof (induction n rule: decimal.induct)
  case (1 n)
  show ?case
  proof (cases "n < 10")
    case True
    then show ?thesis by (subst decimal.simps) (simp add: digit_char_props)
  next
    case False
    with 1 show ?thesis by (subst decimal.simps) (auto simp: digit_char_props)
  qed
qed

lemma decimal_nonempty: "decimal n \<noteq> []"
  by (subst decimal.simps) simp

lemma decimal_value: "digits_value 0 (decimal n) = n"
proof (induction n rule: decimal.induct)
  case (1 n)
  show ?case
  proof (cases "n < 10")
    case True
    then show ?thesis by (subst decimal.simps) (simp add: digit_char_props)
  next
    case False
    with 1 show ?thesis by (subst decimal.simps) (simp add: digit_char_props)
  qed
qed

lemma ParseUint10_loop_digits:
  "\<forall>c \<in> set ds. is_digit c \<Longrightarrow> n \<le> 2 ^ 64 - 1 \<Longrightarrow>
   ParseUint10_loop n ds =
     (if digits_value n ds \<le> 2 ^ 64 - 1 then Inr (digits_value n ds) else Inl ErrRange)"
proof (induction ds arbitrary: n)
  case Nil
  then show ?case by simp
next
  case (Cons c cs)
  let ?n1 = "n * 10 + digit_val c"
  have ge: "?n1 \<le> digits_value ?n1 cs" by (rule digits_value_ge)
  show ?case
  proof (cases "?n1 \<le> 2 ^ 64 - 1")
    case True
    then have "n * 10 + digit_val c \<le> 18446744073709551615" by simp
    then have "n < 1844674407370955162" by linarith
    with True Cons.prems Cons.IH [of ?n1] show ?thesis by (simp add: Let_def)
  next
    case False
    with ge have "\<not> digits_value ?n1 cs \<le> 2 ^ 64 - 1" by linarith
    with False Cons.prems show ?thesis by (simp add: Let_def)
  qed
qed

lemma ParseUint10_decimal:
  "ParseUint10 (decimal n) = (if n \<le> 2 ^ 64 - 1 then Inr n else Inl ErrRange)"
  by (simp add: ParseUint10_def decimal_nonempty ParseUint10_loop_digits decimal_digits decimal_value)

lemma hd_decimal: "hd (decimal n) \<noteq> CHR ''-''" "hd (decimal n) \<noteq> CHR ''+''"
  using decimal_digits [of n] decimal_nonempty [of n]
  by (cases "decimal n"; auto simp: is_digit_def less_eq_char_def)+

lemma ParseInt_Itoa:
  "ParseInt (Itoa i) =
     (if - (2 ^ 63) \<le> i \<and> i < 2 ^ 63 then Inr (word_of_int i)
      else Inl (NumError ''ParseInt'' (Itoa i) ErrRange))"
proof (cases "i < 0")
  case False
  then have "Itoa i = decimal (nat i)" by (simp add: Itoa_def)
  moreover have "(word_of_nat (nat i) :: 64 word) = word_of_int i" using False by simp
  ultimately show ?thesis
    using False by (auto simp: ParseInt_def decimal_nonempty hd_decimal ParseUint10_decimal Let_def)
next
  case True
  then have I: "Itoa i = CHR ''-'' # decimal (nat (- i))" by (simp add: Itoa_def)
  have "(- word_of_nat (nat (- i)) :: 64 word) = word_of_int i" using True by simp
  then show ?thesis
    using True by (auto simp: I ParseInt_def ParseUint10_decimal Let_def)
qed

subsection \<open>Integer literals in the decoder\<close>

lemma drop_Cons_D:
  assumes "drop pos d = x # xs"
  shows "pos < length d" "d ! pos = x" "drop (pos + 1) d = xs"
proof -
  show "pos < length d" using assms by (cases "pos < length d") auto
  then have "d ! pos # drop (Suc pos) d = x # xs" using assms by (simp add: Cons_nth_drop_Suc)
  then show "d ! pos = x" "drop (pos + 1) d = xs" by simp_all
qed

lemma drop_nth_hd: "drop pos d = x # xs \<Longrightarrow> pos < length d \<and> d ! pos = x"
  by (simp add: drop_Cons_D)

lemma drop_Suc_tl: "drop pos d = x # xs \<Longrightarrow> drop (pos + 1) d = xs"
  by (rule drop_Cons_D)

lemma scanNumber_prefix:
  "drop pos d = xs @ rest \<Longrightarrow> \<forall>c \<in> set xs. is_num_char c
   \<Longrightarrow> rest = [] \<or> \<not> is_num_char (hd rest) \<Longrightarrow> scanNumber d pos = pos + length xs"
proof (induction xs arbitrary: pos)
  case Nil
  show ?case
  proof (cases rest)
    case Nil
    with Nil.prems(1) have "length d \<le> pos" by simp
    then show ?thesis by (subst scanNumber.simps) simp
  next
    case (Cons r rs)
    with Nil.prems have "pos < length d \<and> d ! pos = r" "\<not> is_num_char r"
      by (auto dest: drop_nth_hd)
    then show ?thesis by (subst scanNumber.simps) simp
  qed
next
  case (Cons x xs)
  from Cons.prems(1) have a: "pos < length d \<and> d ! pos = x" and b: "drop (pos + 1) d = xs @ rest"
    by (auto dest: drop_nth_hd drop_Suc_tl)
  from Cons.IH [OF b] Cons.prems have "scanNumber d (pos + 1) = pos + 1 + length xs" by simp
  with a Cons.prems(2) show ?case by (subst scanNumber.simps) simp
qed

lemma slice_prefix: "drop pos d = xs @ rest \<Longrightarrow> slice d pos (pos + length xs) = xs"
  by (simp add: slice_def)

lemma is_digit_num_char: "is_digit c \<Longrightarrow> is_num_char c"
  by (simp add: is_num_char_def)

lemma is_digit_not_marker: "is_digit c \<Longrightarrow> c \<noteq> CHR ''.'' \<and> c \<noteq> CHR ''e'' \<and> c \<noteq> CHR ''E''"
  by (auto simp: is_digit_def less_eq_char_def)

lemma Itoa_chars: "c \<in> set (Itoa j) \<Longrightarrow> c = CHR ''-'' \<or> is_digit c"
  using decimal_digits [of "nat j"] decimal_digits [of "nat (- j)"]
  by (simp add: Itoa_def split: if_splits) blast+

lemma Itoa_num_chars: "\<forall>c \<in> set (Itoa j). is_num_char c"
proof
  fix c assume "c \<in> set (Itoa j)"
  then have "c = CHR ''-'' \<or> is_digit c" by (rule Itoa_chars)
  then show "is_num_char c" by (auto simp: is_num_char_def)
qed

lemma Itoa_no_marker: "\<not> has_marker (Itoa j)"
proof
  assume "has_marker (Itoa j)"
  then obtain c where c: "c \<in> set (Itoa j)" "c = CHR ''.'' \<or> c = CHR ''e'' \<or> c = CHR ''E''"
    unfolding has_marker_def by blast
  from c(1) have "c = CHR ''-'' \<or> is_digit c" by (rule Itoa_chars)
  with c(2) show False using is_digit_not_marker [of c] by auto
qed

lemma Itoa_nonempty: "Itoa j \<noteq> []"
  by (simp add: Itoa_def decimal_nonempty)

lemma hd_Itoa: "hd (Itoa j) = CHR ''-'' \<or> is_digit (hd (Itoa j))"
proof -
  have "hd (Itoa j) \<in> set (Itoa j)" using Itoa_nonempty by simp
  then show ?thesis by (rule Itoa_chars)
qed

text \<open>
  A decimal numeral in the input, with no byte of a number behind it, is scanned whole
  and converted by \<^verbatim>\<open>ParseInt\<close>: to the \<^verbatim>\<open>int64\<close> of that value, or to a range error
  that names the numeral and the offset.
\<close>

lemma parseNumber_Itoa:
  assumes "drop s d = Itoa j @ rest" "rest = [] \<or> \<not> is_num_char (hd rest)"
  shows "parseNumber E d s =
     (if - (2 ^ 63) \<le> j \<and> j < 2 ^ 63 then Inr (VInt64 (word_of_int j), s + length (Itoa j))
      else Inl (Invalid_integer s (NumError ''ParseInt'' (Itoa j) ErrRange)))"
proof -
  have "scanNumber d s = s + length (Itoa j)"
    using assms Itoa_num_chars [of j] by (intro scanNumber_prefix) simp_all
  moreover have "slice d s (s + length (Itoa j)) = Itoa j"
    using assms(1) by (rule slice_prefix)
  ultimately show ?thesis
    by (simp add: parseNumber_def Let_def Itoa_no_marker ParseInt_Itoa)
qed

lemma is_digit_not_special:
  "is_digit c \<or> c = CHR ''-'' \<Longrightarrow>
   \<not> is_space c \<and> c \<noteq> CHR ''{'' \<and> c \<noteq> CHR ''['' \<and> c \<noteq> CHR 0x22 \<and> c \<noteq> CHR ''t'' \<and> c \<noteq> CHR ''f''
   \<and> c \<noteq> CHR ''n''"
  by (auto simp: is_digit_def less_eq_char_def is_space_def)

lemma parse_number_start:
  assumes "pos < length d" "d ! pos = CHR ''-'' \<or> is_digit (d ! pos)"
  shows "parse E (Suc n) d pos = parseNumber E d pos"
proof -
  from assms(2) have ns: "\<not> is_space (d ! pos)" and sp: "d ! pos \<noteq> CHR ''{''" "d ! pos \<noteq> CHR ''[''"
    "d ! pos \<noteq> CHR 0x22" "d ! pos \<noteq> CHR ''t''" "d ! pos \<noteq> CHR ''f''" "d ! pos \<noteq> CHR ''n''"
    using is_digit_not_special [of "d ! pos"] by auto
  from ns have "skipWhitespace d pos = pos" by (simp add: skipWhitespace_id)
  with assms sp show ?thesis by (simp add: parse.simps parse_leaf_def)
qed

lemma parse_Itoa:
  assumes "drop s d = Itoa j @ rest" "rest = [] \<or> \<not> is_num_char (hd rest)"
  shows "parse E (Suc n) d s = parseNumber E d s"
proof -
  obtain x xs where "Itoa j = x # xs" using Itoa_nonempty [of j] by (cases "Itoa j") simp_all
  with assms(1) have "drop s d = x # (xs @ rest)" by simp
  then have "s < length d" "d ! s = x" by (rule drop_Cons_D)+
  moreover from \<open>Itoa j = x # xs\<close> hd_Itoa [of j] have "x = CHR ''-'' \<or> is_digit x" by simp
  ultimately show ?thesis by (intro parse_number_start) simp_all
qed

lemma unmarshalJSON_Itoa:
  "- (2 ^ 63) \<le> j \<Longrightarrow> j < 2 ^ 63 \<Longrightarrow> unmarshalJSON E (Itoa j) Target_any = Inr (VInt64 (word_of_int j))"
proof -
  assume r: "- (2 ^ 63) \<le> j" "j < 2 ^ 63"
  have d: "drop 0 (Itoa j) = Itoa j @ []" by simp
  have "parse E (Suc (2 * length (Itoa j) + 1)) (Itoa j) 0 = parseNumber E (Itoa j) 0"
    by (rule parse_Itoa [OF d]) simp
  also have "\<dots> = Inr (VInt64 (word_of_int j), 0 + length (Itoa j))"
    using parseNumber_Itoa [OF d, of E] r by simp
  finally show ?thesis by (simp add: unmarshalJSON_def parse_fuel_def)
qed

subsection \<open>Re-encoding a decoded integer literal\<close>

lemma parseNumber_no_marker_int64:
  "parseNumber E d s = Inr (v, p) \<Longrightarrow> \<not> has_marker (slice d s (scanNumber d s)) \<Longrightarrow> \<exists>i. v = VInt64 i"
  by (auto simp: parseNumber_def Let_def split: sum.splits)

lemma marshalJSON_field_int64:
  assumes "(k, VInt64 i) \<in> set kvs"
  shows "marshalJSON E (VMap kvs) = Inl (Unsupported_type ''int64'')"
proof -
  have "isl (writeJSON_fields E True kvs)"
    using assms by (intro writeJSON_fields_fail [of k "VInt64 i"]) simp_all
  then obtain e' where e: "writeJSON_fields E True kvs = Inl e'" by (auto simp: isl_def)
  then have "e' = Unsupported_type ''int64''" by (rule writeJSON_error_kind)
  with e show ?thesis by (simp add: marshalJSON_def)
qed

text \<open>
  C3. Whatever \<^verbatim>\<open>parseNumber\<close> returns for a literal without \<^verbatim>\<open>.\<close>, \<^verbatim>\<open>e\<close> or \<^verbatim>\<open>E\<close> is an
  \<^verbatim>\<open>int64\<close>, and the encoder fails on it with the unsupported-type error, alone and as
  the value of a field of a document. Every decimal numeral of a 64-bit integer is decoded
  by \<^verbatim>\<open>unmarshalJSON\<close>, and encoding the decoded value fails. The encoder fails on every
  \<^verbatim>\<open>int64\<close> and on every document with an \<^verbatim>\<open>int64\<close> field.
\<close>

theorem encoder_rejects_int64:
  "(parseNumber E d s = Inr (v, p) \<and> \<not> has_marker (slice d s (scanNumber d s))
      \<longrightarrow> marshalJSON E v = Inl (Unsupported_type ''int64'')
          \<and> ((k, v) \<in> set kvs \<longrightarrow> marshalJSON E (VMap kvs) = Inl (Unsupported_type ''int64'')))
   \<and> (- (2 ^ 63) \<le> j \<and> j < 2 ^ 63
      \<longrightarrow> (\<exists>w. unmarshalJSON E (Itoa j) Target_any = Inr w
               \<and> marshalJSON E w = Inl (Unsupported_type ''int64'')))
   \<and> marshalJSON E (VInt64 i) = Inl (Unsupported_type ''int64'')
   \<and> ((k', VInt64 i) \<in> set kvs' \<longrightarrow> marshalJSON E (VMap kvs') = Inl (Unsupported_type ''int64''))"
proof (intro conjI impI)
  assume a: "parseNumber E d s = Inr (v, p) \<and> \<not> has_marker (slice d s (scanNumber d s))"
  then obtain i' where v: "v = VInt64 i'" using parseNumber_no_marker_int64 by blast
  then show "marshalJSON E v = Inl (Unsupported_type ''int64'')" by (simp add: marshalJSON_def)
  assume "(k, v) \<in> set kvs"
  with v show "marshalJSON E (VMap kvs) = Inl (Unsupported_type ''int64'')"
    by (simp add: marshalJSON_field_int64)
next
  assume "- (2 ^ 63) \<le> j \<and> j < 2 ^ 63"
  then have "unmarshalJSON E (Itoa j) Target_any = Inr (VInt64 (word_of_int j))"
    by (simp add: unmarshalJSON_Itoa)
  then show "\<exists>w. unmarshalJSON E (Itoa j) Target_any = Inr w
      \<and> marshalJSON E w = Inl (Unsupported_type ''int64'')"
    by (simp add: marshalJSON_def)
next
  show "marshalJSON E (VInt64 i) = Inl (Unsupported_type ''int64'')" by (simp add: marshalJSON_def)
next
  assume "(k', VInt64 i) \<in> set kvs'"
  then show "marshalJSON E (VMap kvs') = Inl (Unsupported_type ''int64'')"
    by (rule marshalJSON_field_int64)
qed

theorem encoder_rejects_int64_witness:
  "parseNumber ref_extern ''42'' 0 = Inr (VInt64 42, 2)
   \<and> \<not> has_marker (slice ''42'' 0 (scanNumber ''42'' 0))
   \<and> marshalJSON ref_extern (VInt64 42) = Inl (Unsupported_type ''int64'')
   \<and> (''a'', VInt64 42) \<in> set [(''a'', VInt64 42), (''b'', VNil)]
   \<and> marshalJSON ref_extern (VMap [(''a'', VInt64 42), (''b'', VNil)]) = Inl (Unsupported_type ''int64'')
   \<and> - (2 ^ 63) \<le> (42 :: int) \<and> (42 :: int) < 2 ^ 63
   \<and> (\<exists>w. unmarshalJSON ref_extern (Itoa 42) Target_any = Inr w
          \<and> marshalJSON ref_extern w = Inl (Unsupported_type ''int64''))"
proof -
  have sc: "scanNumber ''42'' 0 = 2"
    by (simp add: scanNumber.simps is_num_char_def is_digit_def less_eq_char_def)
  have h2: "\<not> has_marker (slice ''42'' 0 (scanNumber ''42'' 0))"
    by (simp add: sc slice_def has_marker_def)
  have h1: "parseNumber ref_extern ''42'' 0 = Inr (VInt64 42, 2)"
    using h2 by (simp add: parseNumber_def sc slice_def ParseInt_def ParseUint10_def is_digit_def
        less_eq_char_def digit_val_def)
  show ?thesis
    using h1 h2
      encoder_rejects_int64 [of ref_extern "''42''" 0 "VInt64 42" 2 "''a''"
        "[(''a'', VInt64 42), (''b'', VNil)]" 42 42 "''a''" "[(''a'', VInt64 42), (''b'', VNil)]"]
    by simp
qed

subsection \<open>Integer and float literals\<close>

lemma ParseInt_error_names_input: "ParseInt x = Inl e \<Longrightarrow> \<exists>k. e = NumError ''ParseInt'' x k"
  by (auto simp: ParseInt_def Let_def split: if_splits sum.splits)

lemma unmarshalJSON_Itoa_overflow:
  assumes "\<not> (- (2 ^ 63) \<le> j \<and> j < 2 ^ 63)"
  shows "unmarshalJSON E (Itoa j) t = Inl (Invalid_integer 0 (NumError ''ParseInt'' (Itoa j) ErrRange))"
proof -
  have d: "drop 0 (Itoa j) = Itoa j @ []" by simp
  have "parse E (Suc (2 * length (Itoa j) + 1)) (Itoa j) 0 = parseNumber E (Itoa j) 0"
    by (rule parse_Itoa [OF d]) simp
  also have "\<dots> = Inl (Invalid_integer 0 (NumError ''ParseInt'' (Itoa j) ErrRange))"
    using parseNumber_Itoa [OF d, of E] assms by simp
  finally show ?thesis by (simp add: unmarshalJSON_def parse_fuel_def)
qed

text \<open>
  C8. \<^verbatim>\<open>parse\<close> hands every input that starts with a minus sign or a digit to
  \<^verbatim>\<open>parseNumber\<close>. When \<^verbatim>\<open>parseNumber\<close> succeeds, it has consumed the maximal run of
  number bytes; the result is the \<^verbatim>\<open>int64\<close> that \<^verbatim>\<open>ParseInt\<close> gives for the run if the run
  has none of \<^verbatim>\<open>.\<close>, \<^verbatim>\<open>e\<close>, \<^verbatim>\<open>E\<close>, and the \<^verbatim>\<open>float64\<close> that \<^verbatim>\<open>ParseFloat\<close> gives for it
  otherwise. When it fails, the error carries the offset of the literal and the
  \<^verbatim>\<open>NumError\<close> of the conversion, which names the run. A decimal numeral is decoded to
  its value if that is a 64-bit signed integer and to the range error otherwise, also
  by \<^verbatim>\<open>unmarshalJSON\<close>.
\<close>

theorem number_literals:
  "(s < length d \<and> (d ! s = CHR ''-'' \<or> is_digit (d ! s)) \<longrightarrow> parse E (Suc n) d s = parseNumber E d s)
   \<and> (parseNumber E d s = Inr (v, p) \<longrightarrow>
        p = scanNumber d s
        \<and> (if has_marker (slice d s p)
           then \<exists>f. v = VFloat64 f \<and> ParseFloat E (slice d s p) = Inr f
           else \<exists>i. v = VInt64 i \<and> ParseInt (slice d s p) = Inr i))
   \<and> (parseNumber E d s = Inl e \<longrightarrow>
        (\<exists>k. e = Invalid_number s (NumError ''ParseFloat'' (slice d s (scanNumber d s)) k)
              \<and> has_marker (slice d s (scanNumber d s))
              \<and> ParseFloat E (slice d s (scanNumber d s)) = Inl k)
        \<or> (\<exists>k. e = Invalid_integer s (NumError ''ParseInt'' (slice d s (scanNumber d s)) k)
              \<and> \<not> has_marker (slice d s (scanNumber d s))
              \<and> ParseInt (slice d s (scanNumber d s))
                  = Inl (NumError ''ParseInt'' (slice d s (scanNumber d s)) k)))
   \<and> (drop s d = Itoa j @ rest \<and> (rest = [] \<or> \<not> is_num_char (hd rest)) \<longrightarrow>
        parseNumber E d s =
          (if - (2 ^ 63) \<le> j \<and> j < 2 ^ 63 then Inr (VInt64 (word_of_int j), s + length (Itoa j))
           else Inl (Invalid_integer s (NumError ''ParseInt'' (Itoa j) ErrRange))))
   \<and> unmarshalJSON E (Itoa j) Target_any =
        (if - (2 ^ 63) \<le> j \<and> j < 2 ^ 63 then Inr (VInt64 (word_of_int j))
         else Inl (Invalid_integer 0 (NumError ''ParseInt'' (Itoa j) ErrRange)))"
proof (intro conjI impI)
  assume "s < length d \<and> (d ! s = CHR ''-'' \<or> is_digit (d ! s))"
  then show "parse E (Suc n) d s = parseNumber E d s" by (intro parse_number_start) simp_all
next
  assume a: "parseNumber E d s = Inr (v, p)"
  then show "p = scanNumber d s"
    by (auto simp: parseNumber_def Let_def split: if_splits sum.splits)
  with a show "if has_marker (slice d s p)
      then \<exists>f. v = VFloat64 f \<and> ParseFloat E (slice d s p) = Inr f
      else \<exists>i. v = VInt64 i \<and> ParseInt (slice d s p) = Inr i"
    by (auto simp: parseNumber_def Let_def split: if_splits sum.splits)
next
  let ?x = "slice d s (scanNumber d s)"
  assume a: "parseNumber E d s = Inl e"
  show "(\<exists>k. e = Invalid_number s (NumError ''ParseFloat'' ?x k) \<and> has_marker ?x
            \<and> ParseFloat E ?x = Inl k)
      \<or> (\<exists>k. e = Invalid_integer s (NumError ''ParseInt'' ?x k) \<and> \<not> has_marker ?x
            \<and> ParseInt ?x = Inl (NumError ''ParseInt'' ?x k))"
  proof (cases "has_marker ?x")
    case True
    with a show ?thesis by (auto simp: parseNumber_def Let_def split: sum.splits)
  next
    case False
    with a obtain e' where e': "ParseInt ?x = Inl e'" "e = Invalid_integer s e'"
      by (auto simp: parseNumber_def Let_def split: sum.splits)
    from e'(1) obtain k where "e' = NumError ''ParseInt'' ?x k"
      using ParseInt_error_names_input by blast
    with e' False show ?thesis by simp
  qed
next
  assume "drop s d = Itoa j @ rest \<and> (rest = [] \<or> \<not> is_num_char (hd rest))"
  then show "parseNumber E d s =
      (if - (2 ^ 63) \<le> j \<and> j < 2 ^ 63 then Inr (VInt64 (word_of_int j), s + length (Itoa j))
       else Inl (Invalid_integer s (NumError ''ParseInt'' (Itoa j) ErrRange)))"
    using parseNumber_Itoa [of s d j rest E] by blast
next
  show "unmarshalJSON E (Itoa j) Target_any =
      (if - (2 ^ 63) \<le> j \<and> j < 2 ^ 63 then Inr (VInt64 (word_of_int j))
       else Inl (Invalid_integer 0 (NumError ''ParseInt'' (Itoa j) ErrRange)))"
    using unmarshalJSON_Itoa [of j E] unmarshalJSON_Itoa_overflow [of j E Target_any] by auto
qed


lemma Itoa_2_63: "Itoa 9223372036854775808 = ''9223372036854775808''"
  by (simp add: Itoa_def decimal.simps digit_char_def char_of_def bit_Suc_0_iff)

theorem number_literals_witness:
  "parseNumber ref_extern ''42,'' 0 = Inr (VInt64 42, 2)
   \<and> 2 = scanNumber ''42,'' 0 \<and> \<not> has_marker (slice ''42,'' 0 2) \<and> ParseInt (slice ''42,'' 0 2) = Inr 42
   \<and> parseNumber ref_extern ''0.5]'' 0 = Inr (VFloat64 (), 3) \<and> has_marker (slice ''0.5]'' 0 3)
   \<and> drop 0 ''9223372036854775808'' = Itoa 9223372036854775808 @ []
   \<and> parseNumber ref_extern ''9223372036854775808'' 0
       = Inl (Invalid_integer 0 (NumError ''ParseInt'' ''9223372036854775808'' ErrRange))
   \<and> unmarshalJSON ref_extern ''9223372036854775808'' Target_any
       = Inl (Invalid_integer 0 (NumError ''ParseInt'' ''9223372036854775808'' ErrRange))
   \<and> (0 :: nat) < length ''42,'' \<and> is_digit (''42,'' ! 0)
   \<and> parse ref_extern (Suc 0) ''42,'' 0 = Inr (VInt64 42, 2)"
proof -
  have sc: "scanNumber ''42,'' 0 = 2" "scanNumber ''0.5]'' 0 = 3"
    by (simp_all add: scanNumber.simps is_num_char_def is_digit_def less_eq_char_def)
  have h1: "parseNumber ref_extern ''42,'' 0 = Inr (VInt64 42, 2)"
    by (simp add: parseNumber_def sc slice_def has_marker_def ParseInt_def ParseUint10_def
        is_digit_def less_eq_char_def digit_val_def)
  have h2: "parseNumber ref_extern ''0.5]'' 0 = Inr (VFloat64 (), 3)"
    by (simp add: parseNumber_def sc slice_def has_marker_def ref_extern_def)
  have h3: "is_digit (''42,'' ! 0)" by (simp add: is_digit_def less_eq_char_def)
  note t1 = number_literals [of 0 "''42,''" ref_extern 0 "VInt64 42" 2 _ 9223372036854775808 "[]"]
  note t2 = number_literals [of 0 "''0.5]''" ref_extern 0 "VFloat64 ()" 3 _ 0 "[]"]
  note t3 = number_literals [of 0 "''9223372036854775808''" ref_extern 0 _ _ _ 9223372036854775808 "[]"]
  have h4: "slice ''42,'' 0 2 = ''42''" "slice ''0.5]'' 0 3 = ''0.5''"
    "\<not> has_marker ''42''" "has_marker ''0.5''"
    by (simp_all add: slice_def has_marker_def)
  have h5: "ParseInt ''42'' = Inr 42"
    by (simp add: ParseInt_def ParseUint10_def is_digit_def less_eq_char_def digit_val_def)
  from h1 h2 h3 t1 t2 t3 show ?thesis
    by (simp add: Itoa_2_63 h4 h5)
qed

subsection \<open>A failed write leaves the backend as it was\<close>






subsection \<open>A failed batch leaves the backend as it was\<close>









subsection \<open>Reading many documents\<close>








subsection \<open>Posting lists stay well formed\<close>















subsection \<open>Two documents under one posting list\<close>

lemma Itoa_5: "Itoa 5 = ''5''"
  by (simp add: Itoa_def decimal.simps digit_char_def char_of_def bit_Suc_0_iff)

lemma escapeString_a: \<open>escapeString ''a'' = ''"a"''\<close>
  by (simp add: escapeString_def DecodeRuneInString_def seq_len_def escapeRune_def EncodeRune_def
      MaxRune_def char_of_def bit_Suc_0_iff)

lemma marshalJSON_a5: \<open>marshalJSON E (VMap [(''a'', VInt 5)]) = Inr ''{"a":5}''\<close>
  by (simp add: marshalJSON_def Itoa_5 escapeString_a)

lemma object_a5_run:
  assumes len: "length d = 7"
    and nth: "d ! 0 = CHR ''{''" "d ! Suc 0 = CHR 0x22" "d ! 2 = CHR ''a''" "d ! 3 = CHR 0x22"
      "d ! 4 = CHR '':''" "d ! 5 = CHR ''5''" "d ! 6 = CHR ''}''"
    and sl: "slice d 5 6 = ''5''"
  shows "parse E (Suc (Suc (Suc n))) d 0 = Inr (VMap [(''a'', VInt64 5)], 7)"
proof -
  have sw: "skipWhitespace d 0 = 0" "skipWhitespace d (Suc 0) = Suc 0" "skipWhitespace d 4 = 4"
    "skipWhitespace d 5 = 5" "skipWhitespace d 6 = 6"
    by (simp_all add: len nth skipWhitespace.simps is_space_def)
  have "parseString_loop d 2 [] = Inr (''a'', 4)"
    by (simp add: parseString_loop.simps len nth)
  then have str: "parseString d (Suc 0) = Inr (''a'', 4)"
    by (simp add: parseString_def numeral_2_eq_2)
  have key: "parseObject_key d (Suc 0) = Inr (''a'', 5)"
    by (simp add: parseObject_key_def sw str len nth)
  have sc: "scanNumber d 5 = 6"
    by (simp add: scanNumber.simps len nth is_num_char_def is_digit_def less_eq_char_def)
  have num: "parseNumber E d 5 = Inr (VInt64 5, 6)"
    by (simp add: parseNumber_def sc sl is_digit_def less_eq_char_def
        has_marker_def ParseInt_def ParseUint10_def digit_val_def)
  have val: "parse E (Suc m) d 5 = Inr (VInt64 5, 6)" for m
    by (simp add: parse.simps sw parse_leaf_def num len nth is_digit_def less_eq_char_def)
  have sep: "close_or_comma (CHR ''}'') Expected_comma_or_brace d 6 = Inr (True, 7)"
    by (simp add: close_or_comma_def sw len nth)
  have loop1: "parseObject_loop E (Suc (Suc m)) d (Suc 0) [] = Inr ([(''a'', VInt64 5)], 7)" for m
    by (subst parseObject_loop.simps) (simp add: key val sep len)
  have obj: "parseObject E (Suc (Suc m)) d 0 = Inr ([(''a'', VInt64 5)], 7)" for m
    by (simp add: parseObject.simps sw loop1 len nth)
  show ?thesis
    by (simp add: parse.simps sw obj len nth)
qed

lemma unmarshalJSON_a5:
  \<open>unmarshalJSON E ''{"a":5}'' Target_map = Inr (VMap [(''a'', VInt64 5)])\<close>
proof -
  have \<open>parse_fuel ''{"a":5}'' = Suc (Suc (Suc 13))\<close> by (simp add: parse_fuel_def)
  moreover have \<open>parse E (Suc (Suc (Suc 13))) ''{"a":5}'' 0 = Inr (VMap [(''a'', VInt64 5)], 7)\<close>
    by (rule object_a5_run) (simp_all add: slice_def)
  ultimately show ?thesis
    unfolding unmarshalJSON_def by simp
qed

lemma Sprint_5: "Sprint E (VInt 5) = ''5''" "Sprint E (VInt64 5) = ''5''"
  by (simp_all add: Itoa_5)

lemma indexKey_a5:
  "indexKey E ''a'' (VInt 5) = ''index:a:5''" "indexKey E ''a'' (VInt64 5) = ''index:a:5''"
  by (simp_all add: indexKey_def Itoa_5)

lemma docKey_not_a5: "docKey k \<noteq> ''index:a:5''" "''index:a:5'' \<noteq> docKey k"
  by (simp_all add: docKey_def)

lemma docKey_inj: "docKey k = docKey k' \<longleftrightarrow> k = k'"
  by (simp add: docKey_def)

lemma Store_a5_first:
  assumes "db ''index:a:5'' = None"
  shows \<open>Store E (\<lambda>n. False) [''a''] db k (VMap [(''a'', VInt 5)])
           = (None, db(docKey k \<mapsto> ''{"a":5}'', ''index:a:5'' \<mapsto> json_Marshal E [k]))\<close>
  using assms
  by (simp add: Store_def store_item_def marshalJSON_a5 tx_Put_def tx_Get_def read_postings_def
      commit_def tx_Commit_def indexKey_a5 docKey_not_a5)

lemma Store_a5_next:
  assumes "db ''index:a:5'' = Some b" and "json_Unmarshal E b = Inr ks"
  shows \<open>Store E (\<lambda>n. False) [''a''] db k (VMap [(''a'', VInt 5)])
           = (None, db(docKey k \<mapsto> ''{"a":5}'',
                       ''index:a:5'' \<mapsto> json_Marshal E (if k \<in> set ks then ks else ks @ [k])))\<close>
  using assms
  by (simp add: Store_def store_item_def marshalJSON_a5 tx_Put_def tx_Get_def read_postings_def
      commit_def tx_Commit_def indexKey_a5 docKey_not_a5)

lemma Delete_a5:
  assumes \<open>db (docKey k) = Some ''{"a":5}''\<close>
    and "db ''index:a:5'' = Some b" and "json_Unmarshal E b = Inr ks"
  shows "Delete E (\<lambda>n. False) [''a''] db k
           = (None, (if filter (\<lambda>x. x \<noteq> k) ks \<noteq> []
                     then db(''index:a:5'' \<mapsto> json_Marshal E (filter (\<lambda>x. x \<noteq> k) ks))
                     else db(''index:a:5'' := None))(docKey k := None))"
  using assms
  by (simp add: Delete_def unmarshalJSON_a5 tx_Put_def tx_Get_def tx_Delete_def
      commit_def tx_Commit_def indexKey_a5 docKey_not_a5)

lemma Query_a5:
  assumes "db ''index:a:5'' = Some b" and "json_Unmarshal E b = Inr ks"
  shows "Query E (\<lambda>n. False) [''a''] db ''a'' (VInt 5) = query_docs E (\<lambda>n. False) db 1 ks"
  using assms by (simp add: Query_def db_Get_def indexKey_a5)

lemma Query_a5_absent:
  assumes "db ''index:a:5'' = None"
  shows "Query E (\<lambda>n. False) [''a''] db ''a'' (VInt 5) = Inr []"
  using assms by (simp add: Query_def db_Get_def indexKey_a5)

text \<open>
  C1. The field \<^verbatim>\<open>a\<close> is indexed, the backend holds no posting list for \<^verbatim>\<open>a\<close> and
  \<^verbatim>\<open>5\<close>, no backend call fails, and the library codec reads back the lists of \<open>k1\<close>
  and \<open>k2\<close> that it writes. \<^verbatim>\<open>Store(k1, {"a": 5})\<close> and \<^verbatim>\<open>Store(k2, {"a": 5})\<close> succeed, and
  \<^verbatim>\<open>Query("a", 5)\<close> returns two documents, the one \<^verbatim>\<open>Retrieve\<close> gives for \<open>k1\<close> and the
  one it gives for \<open>k2\<close>, in this order (the value of \<^verbatim>\<open>a\<close> comes back as the \<^verbatim>\<open>int64\<close> 5).
  Behind \<^verbatim>\<open>Delete(k1)\<close> the query returns the document of \<open>k2\<close> alone, and \<open>k1\<close> is not
  found. Behind \<^verbatim>\<open>Delete(k2)\<close> the backend has no entry under the key of the posting
  list, and the query returns no document.
\<close>

theorem index_consistency:
  assumes codec: "\<forall>xs. set xs \<subseteq> {k1, k2} \<longrightarrow> json_Unmarshal E (json_Marshal E xs) = Inr xs"
    and ne: "k1 \<noteq> k2"
    and fresh: "db (indexKey E ''a'' (VInt 5)) = None"
  shows "(let nf = (\<lambda>n. False);
          doc = VMap [(''a'', VInt 5)];
          dec = VMap [(''a'', VInt64 5)];
          s1 = Store E nf [''a''] db k1 doc;
          s2 = Store E nf [''a''] (snd s1) k2 doc;
          d1 = Delete E nf [''a''] (snd s2) k1;
          d2 = Delete E nf [''a''] (snd d1) k2
      in fst s1 = None \<and> fst s2 = None
         \<and> Query E nf [''a''] (snd s2) ''a'' (VInt 5) = Inr [dec, dec]
         \<and> Retrieve E nf (snd s2) k1 Target_map = Inr dec
         \<and> Retrieve E nf (snd s2) k2 Target_map = Inr dec
         \<and> fst d1 = None
         \<and> Query E nf [''a''] (snd d1) ''a'' (VInt 5) = Inr [dec]
         \<and> Retrieve E nf (snd d1) k1 Target_map = Inl Document_not_found
         \<and> Retrieve E nf (snd d1) k2 Target_map = Inr dec
         \<and> fst d2 = None
         \<and> snd d2 (indexKey E ''a'' (VInt 5)) = None
         \<and> Query E nf [''a''] (snd d2) ''a'' (VInt 5) = Inr [])"
proof -
  let ?nf = "\<lambda>n::nat. False"
  let ?doc = "VMap [(''a'', VInt 5)] :: 'a Value"
  let ?dec = "VMap [(''a'', VInt64 5)] :: 'a Value"
  let ?ik = "''index:a:5''"
  let ?D = \<open>''{"a":5}''\<close>
  let ?db1 = "db(docKey k1 \<mapsto> ?D, ?ik \<mapsto> json_Marshal E [k1])"
  let ?db2 = "?db1(docKey k2 \<mapsto> ?D, ?ik \<mapsto> json_Marshal E [k1, k2])"
  let ?db3 = "(?db2(?ik \<mapsto> json_Marshal E [k2]))(docKey k1 := None)"
  let ?db4 = "(?db3(?ik := None))(docKey k2 := None)"
  have u: "json_Unmarshal E (json_Marshal E [k1]) = Inr [k1]"
    "json_Unmarshal E (json_Marshal E [k1, k2]) = Inr [k1, k2]"
    "json_Unmarshal E (json_Marshal E [k2]) = Inr [k2]"
    using codec by simp_all
  have fresh': "db ?ik = None" using fresh by (simp add: indexKey_a5)
  have s1: "Store E ?nf [''a''] db k1 ?doc = (None, ?db1)"
    using Store_a5_first [of db E k1] fresh' by simp
  have s2: "Store E ?nf [''a''] ?db1 k2 ?doc = (None, ?db2)"
    using Store_a5_next [of ?db1 "json_Marshal E [k1]" E "[k1]" k2] u ne by simp
  have d1: "Delete E ?nf [''a''] ?db2 k1 = (None, ?db3)"
    using Delete_a5 [of ?db2 k1 "json_Marshal E [k1, k2]" E "[k1, k2]"] u ne
    by (simp add: docKey_not_a5 docKey_inj)
  have d2: "Delete E ?nf [''a''] ?db3 k2 = (None, ?db4)"
    using Delete_a5 [of ?db3 k2 "json_Marshal E [k2]" E "[k2]"] u ne
    by (simp add: docKey_not_a5 docKey_inj)
  have q2: "Query E ?nf [''a''] ?db2 ''a'' (VInt 5) = Inr [?dec, ?dec]"
    using Query_a5 [of ?db2 "json_Marshal E [k1, k2]" E "[k1, k2]"] u ne
    by (simp add: db_Get_def docKey_not_a5 docKey_inj unmarshalJSON_a5)
  have q3: "Query E ?nf [''a''] ?db3 ''a'' (VInt 5) = Inr [?dec]"
    using Query_a5 [of ?db3 "json_Marshal E [k2]" E "[k2]"] u ne
    by (simp add: db_Get_def docKey_not_a5 docKey_inj unmarshalJSON_a5)
  have q4: "Query E ?nf [''a''] ?db4 ''a'' (VInt 5) = Inr []"
    using Query_a5_absent [of ?db4] by (simp add: docKey_not_a5)
  have r2: "Retrieve E ?nf ?db2 k1 Target_map = Inr ?dec" "Retrieve E ?nf ?db2 k2 Target_map = Inr ?dec"
    using ne by (simp_all add: Retrieve_def db_Get_def docKey_not_a5 docKey_inj unmarshalJSON_a5)
  have r3: "Retrieve E ?nf ?db3 k1 Target_map = Inl Document_not_found"
    "Retrieve E ?nf ?db3 k2 Target_map = Inr ?dec"
    using ne by (simp_all add: Retrieve_def db_Get_def docKey_not_a5 docKey_inj unmarshalJSON_a5)
  have e4: "?db4 (indexKey E ''a'' (VInt 5)) = None"
    by (simp add: indexKey_a5 docKey_not_a5)
  show ?thesis
    unfolding Let_def s1 s2 d1 d2 snd_conv fst_conv
    using q2 q3 q4 r2 r3 e4 by (intro conjI) (rule refl | assumption)+
qed

theorem index_consistency_witness:
  "(let nf = (\<lambda>n. False);
          doc = VMap [(''a'', VInt 5)];
          dec = VMap [(''a'', VInt64 5)];
          s1 = Store ref_extern nf [''a''] Map.empty ''k1'' doc;
          s2 = Store ref_extern nf [''a''] (snd s1) ''k2'' doc;
          d1 = Delete ref_extern nf [''a''] (snd s2) ''k1'';
          d2 = Delete ref_extern nf [''a''] (snd d1) ''k2''
      in fst s1 = None \<and> fst s2 = None
         \<and> Query ref_extern nf [''a''] (snd s2) ''a'' (VInt 5) = Inr [dec, dec]
         \<and> Retrieve ref_extern nf (snd s2) ''k1'' Target_map = Inr dec
         \<and> Retrieve ref_extern nf (snd s2) ''k2'' Target_map = Inr dec
         \<and> fst d1 = None
         \<and> Query ref_extern nf [''a''] (snd d1) ''a'' (VInt 5) = Inr [dec]
         \<and> Retrieve ref_extern nf (snd d1) ''k1'' Target_map = Inl Document_not_found
         \<and> Retrieve ref_extern nf (snd d1) ''k2'' Target_map = Inr dec
         \<and> fst d2 = None
         \<and> snd d2 (indexKey ref_extern ''a'' (VInt 5)) = None
         \<and> Query ref_extern nf [''a''] (snd d2) ''a'' (VInt 5) = Inr [])"
  using index_consistency [of "''k1''" "''k2''" ref_extern Map.empty]
  by (simp add: ref_extern_def ref_roundtrip)

end
